theory Spec2Isabelle
  imports Main
begin

section \<open>Values, errors and the per-thread state\<close>

text \<open>
  A \<open>DistributionStrategy\<close> object is compared with \<open>is\<close> only, so a strategy is its
  object identity. A \<open>ReplicaContext\<close> object carries its identity, the strategy it
  belongs to and its replica id; two contexts are the same object iff the records agree.
\<close>

type_synonym strategy = nat

record replica_context =
  rc_object :: nat
  rc_distribution_strategy :: strategy
  rc_replica_id_in_sync_group :: int

text \<open>Python values that travel through the argument-passing code.\<close>

datatype pyval =
    PyNone
  | PyBool bool
  | PyInt int
  | PyStr string
  | PyTuple "pyval list"
  | PyList "pyval list"
  | PyDict "(string \<times> pyval) list"
  | PyObject nat
      \<comment> \<open>any other object (a tensor, a variable, a distributed value), by identity\<close>

type_synonym kwargs = "(string \<times> pyval) list"

text \<open>Every exception the modelled code raises, one constructor per message.\<close>

datatype error =
    NeedScope strategy
      \<comment> \<open>RuntimeError: Need to be inside "with distribution_strategy.scope()" for s\<close>
  | MixingStrategies "strategy option" strategy
      \<comment> \<open>RuntimeError: Mixing different DistributionStrategy objects: t is not s\<close>
  | RequiresCrossReplica
      \<comment> \<open>RuntimeError: Method requires being in cross-replica context, use
          get_replica_context().merge_call()\<close>
  | NeedCallForEachReplica
      \<comment> \<open>RuntimeError: Need to be inside `call_for_each_replica()`\<close>
  | MismatchingReplicaContext
  | MismatchingStrategies "strategy option" strategy
  | MustNotNest
      \<comment> \<open>RuntimeError: Must not nest DistributionStrategy scopes.\<close>
  | CantPassArgs string
      \<comment> \<open>ValueError: Can't pass *args and args=... to m\<close>
  | CantPassKwargs string
      \<comment> \<open>ValueError: Can't pass **kwargs and kwargs=... to m\<close>
  | NotDivisible int int
      \<comment> \<open>ValueError: The `global_batch_size` g is not divisible by ...\<close>
  | ZeroDivisionError
  | NotImplementedError
  | AssertionError
  | TypeError
  | AttributeError
  | ValueError
  | Raised nat
      \<comment> \<open>an exception raised by a user function\<close>

datatype thread_mode =
    DefaultReplicaThreadMode
  | CrossReplicaThreadMode strategy
  | InReplicaThreadMode replica_context

text \<open>
  The state one thread sees: the mode stack (head = top), \<open>_update_device.current\<close>
  (\<open>None\<close> while the attribute does not exist), the scopes that
  \<open>_CurrentDistributionContext\<close> enters besides the mode, the colocation scopes, and
  the counter that gives fresh objects their identity.
\<close>

record thread_state =
  mode_stack :: "thread_mode list"
  update_device_current :: "pyval option"
  var_scopes :: "strategy list"
  var_creator_scopes :: "strategy list"
  device_scopes :: "pyval list"
  colocation_scopes :: "pyval list"
  next_object :: nat

type_synonym 'a result = "(error + 'a) \<times> thread_state"

text \<open>User code: a replica function, a merge function, an update function.\<close>

type_synonym user_fn = "pyval list \<Rightarrow> kwargs \<Rightarrow> thread_state \<Rightarrow> pyval result"
type_synonym merge_fn = "strategy \<Rightarrow> pyval list \<Rightarrow> kwargs \<Rightarrow> thread_state \<Rightarrow> pyval result"

section \<open>The mode stack of \<open>distribution_strategy_context\<close>\<close>

text \<open>
  Modelled from the spec: the module \<open>distribution_strategy_context\<close> is not part of
  the source at hand. Its stack is per-thread and LIFO with \<open>push\<close>, \<open>pop\<close> and
  \<open>top\<close>, where \<open>top\<close> of the empty stack is the implicit \<open>Default\<close> sentinel.
  A \<open>pop\<close> has to match a \<open>push\<close>; on the empty stack it is taken to do nothing.
\<close>

definition push_per_thread_mode :: "thread_mode \<Rightarrow> thread_state \<Rightarrow> thread_state" where
  "push_per_thread_mode context st = st\<lparr>mode_stack := context # mode_stack st\<rparr>"

definition pop_per_thread_mode :: "thread_state \<Rightarrow> thread_state" where
  "pop_per_thread_mode st = st\<lparr>mode_stack := tl (mode_stack st)\<rparr>"

definition get_per_thread_mode :: "thread_state \<Rightarrow> thread_mode" where
  "get_per_thread_mode st =
     (case mode_stack st of [] \<Rightarrow> DefaultReplicaThreadMode | context # _ \<Rightarrow> context)"

text \<open>
  Modelled from the spec: the three attributes the guards read off a mode.
  \<open>CrossReplica{strategy}\<close> names its strategy as the scope and as the cross-replica
  context, \<open>InReplica{replicaContext}\<close> names the context and its owning strategy, the
  \<open>Default\<close> sentinel names nothing.
\<close>

fun distribution_strategy :: "thread_mode \<Rightarrow> strategy option" where
  "distribution_strategy DefaultReplicaThreadMode = None"
| "distribution_strategy (CrossReplicaThreadMode s) = Some s"
| "distribution_strategy (InReplicaThreadMode r) = Some (rc_distribution_strategy r)"

fun cross_replica_context :: "thread_mode \<Rightarrow> strategy option" where
  "cross_replica_context DefaultReplicaThreadMode = None"
| "cross_replica_context (CrossReplicaThreadMode s) = Some s"
| "cross_replica_context (InReplicaThreadMode r) = None"

fun replica_context_of :: "thread_mode \<Rightarrow> replica_context option" where
  "replica_context_of DefaultReplicaThreadMode = None"
| "replica_context_of (CrossReplicaThreadMode s) = None"
| "replica_context_of (InReplicaThreadMode r) = Some r"

text \<open>
  Modelled from the spec: a strategy scope is active unless the current mode is the
  \<open>Default\<close> sentinel ("no strategy scope active at all").
\<close>

definition has_distribution_strategy :: "thread_state \<Rightarrow> bool" where
  "has_distribution_strategy st \<longleftrightarrow> get_per_thread_mode st \<noteq> DefaultReplicaThreadMode"

section \<open>Validating the current thread mode\<close>

definition require_cross_replica_context :: "thread_state \<Rightarrow> strategy \<Rightarrow> error + unit" where
  "require_cross_replica_context st ds =
     (let context = get_per_thread_mode st in
      if cross_replica_context context = Some ds then Inr ()
      else if distribution_strategy context \<noteq> Some ds then
        (if \<not> has_distribution_strategy st then Inl (NeedScope ds)
         else Inl (MixingStrategies (distribution_strategy context) ds))
      else if cross_replica_context context \<noteq> None then Inl AssertionError
      else Inl RequiresCrossReplica)"

definition require_replica_context :: "thread_state \<Rightarrow> replica_context \<Rightarrow> error + unit" where
  "require_replica_context st replica_ctx =
     (let context = get_per_thread_mode st in
      if replica_context_of context = Some replica_ctx then Inr ()
      else if replica_context_of context = None then Inl NeedCallForEachReplica
      else if distribution_strategy context = Some (rc_distribution_strategy replica_ctx)
        then Inl MismatchingReplicaContext
      else Inl (MismatchingStrategies (distribution_strategy context)
                  (rc_distribution_strategy replica_ctx)))"

definition require_distribution_strategy_scope :: "thread_state \<Rightarrow> strategy \<Rightarrow> error + unit" where
  "require_distribution_strategy_scope st ds =
     (let context = get_per_thread_mode st in
      if distribution_strategy context = Some ds then Inr ()
      else if \<not> has_distribution_strategy st then Inl (NeedScope ds)
      else Inl (MixingStrategies (distribution_strategy context) ds))"

section \<open>Python's calling convention\<close>

text \<open>Truth value of an object, and \<open>x and y\<close>, which returns one of its operands.\<close>

fun truthy :: "pyval \<Rightarrow> bool" where
  "truthy PyNone = False"
| "truthy (PyBool b) = b"
| "truthy (PyInt i) = (i \<noteq> 0)"
| "truthy (PyStr s) = (s \<noteq> [])"
| "truthy (PyTuple xs) = (xs \<noteq> [])"
| "truthy (PyList xs) = (xs \<noteq> [])"
| "truthy (PyDict kvs) = (kvs \<noteq> [])"
| "truthy (PyObject n) = True"

definition py_and :: "pyval \<Rightarrow> pyval \<Rightarrow> pyval" where
  "py_and x y = (if truthy x then y else x)"

text \<open>\<open>kwargs.pop(key, default)\<close> on the dictionary of keyword arguments.\<close>

definition kwargs_pop :: "kwargs \<Rightarrow> string \<Rightarrow> pyval \<Rightarrow> pyval \<times> kwargs" where
  "kwargs_pop kw key dflt =
     (case map_of kw key of
        None \<Rightarrow> (dflt, kw)
      | Some v \<Rightarrow> (v, filter (\<lambda>kv. fst kv \<noteq> key) kw))"

text \<open>
  \<open>k.pop(key, None)\<close> where \<open>k\<close> is whatever the caller gave as \<open>kwargs=\<close>: a
  dictionary loses the key, a list rejects the second argument, nothing else has \<open>pop\<close>.
\<close>

fun pop_discard :: "pyval \<Rightarrow> string \<Rightarrow> error + pyval" where
  "pop_discard (PyDict kvs) key = Inr (PyDict (snd (kwargs_pop kvs key PyNone)))"
| "pop_discard (PyList xs) key = Inl TypeError"
| "pop_discard v key = Inl AttributeError"

text \<open>\<open>f(*args, **kwargs)\<close>: what the two unpackings give, or the TypeError they raise.\<close>

fun star_args :: "pyval \<Rightarrow> error + pyval list" where
  "star_args (PyTuple xs) = Inr xs"
| "star_args (PyList xs) = Inr xs"
| "star_args (PyStr s) = Inr (map (\<lambda>c. PyStr [c]) s)"
| "star_args (PyDict kvs) = Inr (map (\<lambda>kv. PyStr (fst kv)) kvs)"
| "star_args v = Inl TypeError"

fun star_kwargs :: "pyval \<Rightarrow> error + kwargs" where
  "star_kwargs (PyDict kvs) = Inr kvs"
| "star_kwargs v = Inl TypeError"

definition call_fn :: "user_fn \<Rightarrow> pyval \<Rightarrow> pyval \<Rightarrow> thread_state \<Rightarrow> pyval result" where
  "call_fn fn args kwargs st =
     (case star_args args of
        Inl e \<Rightarrow> (Inl e, st)
      | Inr a \<Rightarrow>
          (case star_kwargs kwargs of
             Inl e \<Rightarrow> (Inl e, st)
           | Inr k \<Rightarrow> fn a k st))"

fun sequence_results :: "(error + 'a) list \<Rightarrow> error + 'a list" where
  "sequence_results [] = Inr []"
| "sequence_results (Inl e # rs) = Inl e"
| "sequence_results (Inr v # rs) =
     (case sequence_results rs of Inl e \<Rightarrow> Inl e | Inr vs \<Rightarrow> Inr (v # vs))"

text \<open>
  Modelled from the spec: \<open>nest.map_structure\<close> is not part of the source at hand.
  Tuples, lists and dictionaries are the nested structures, everything else is a
  component (a leaf); \<open>nest.map_structure(f, value)\<close> keeps the structure and applies
  \<open>f\<close> to every leaf, left to right.
\<close>

fun map_structure :: "(pyval \<Rightarrow> error + pyval) \<Rightarrow> pyval \<Rightarrow> error + pyval" where
  "map_structure f (PyTuple xs) =
     (case sequence_results (map (map_structure f) xs) of
        Inl e \<Rightarrow> Inl e | Inr ys \<Rightarrow> Inr (PyTuple ys))"
| "map_structure f (PyList xs) =
     (case sequence_results (map (map_structure f) xs) of
        Inl e \<Rightarrow> Inl e | Inr ys \<Rightarrow> Inr (PyList ys))"
| "map_structure f (PyDict kvs) =
     (case sequence_results (map (\<lambda>kv. map_structure f (snd kv)) kvs) of
        Inl e \<Rightarrow> Inl e | Inr ys \<Rightarrow> Inr (PyDict (zip (map fst kvs) ys)))"
| "map_structure f v = f v"

section \<open>InputContext\<close>

record input_context =
  num_input_pipelines :: int
  input_pipeline_id :: int
  num_replicas_in_sync :: int

text \<open>
  Python's \<open>%\<close> and \<open>//\<close> on integers are floor division, as \<open>mod\<close> and \<open>div\<close> on
  \<open>int\<close> are; both raise on a zero divisor, which is written out.
\<close>

definition get_per_replica_batch_size :: "input_context \<Rightarrow> int \<Rightarrow> error + int" where
  "get_per_replica_batch_size self global_batch_size =
     (if num_replicas_in_sync self = 0 then Inl ZeroDivisionError
      else if global_batch_size mod num_replicas_in_sync self \<noteq> 0
        then Inl (NotDivisible global_batch_size (num_replicas_in_sync self))
      else Inr (global_batch_size div num_replicas_in_sync self))"

section \<open>UpdateContext\<close>

definition get_update_device :: "thread_state \<Rightarrow> pyval" where
  "get_update_device st =
     (case update_device_current st of None \<Rightarrow> PyNone | Some d \<Rightarrow> d)"

text \<open>
  \<open>UpdateContext.__enter__\<close> returns the device it found, which the object keeps in
  \<open>_old_device\<close> for \<open>__exit__\<close>.
\<close>

definition update_context_enter :: "pyval \<Rightarrow> thread_state \<Rightarrow> pyval \<times> thread_state" where
  "update_context_enter device st =
     (get_update_device st, st\<lparr>update_device_current := Some device\<rparr>)"

definition update_context_exit :: "pyval \<Rightarrow> thread_state \<Rightarrow> thread_state" where
  "update_context_exit old_device st = st\<lparr>update_device_current := Some old_device\<rparr>"

section \<open>The scope of a strategy\<close>

text \<open>
  The two context managers \<open>scope()\<close> can return. A
  \<open>_CurrentDistributionContext\<close> holds the strategy of its mode, the strategy whose
  creator its variable-creator scope installs, its variable scope if it has one, and
  the device of its device scope if it has one.
\<close>

datatype scope_manager =
    CurrentDistributionContext strategy strategy "strategy option" "pyval option"
  | SameScopeAgainContext strategy

definition new_current_distribution_context ::
    "strategy \<Rightarrow> strategy \<Rightarrow> strategy option \<Rightarrow> pyval \<Rightarrow> scope_manager" where
  "new_current_distribution_context ds var_creator_scope var_scope default_device =
     CurrentDistributionContext ds var_creator_scope var_scope
       (if truthy default_device then Some default_device else None)"

text \<open>
  Modelled from the spec: the variable scope, the variable-creator scope, the device
  scope and the colocation scope belong to modules that are not part of the source at
  hand; entering one installs it on top of those already installed, leaving it removes
  it again.
\<close>

definition var_scope_enter :: "strategy \<Rightarrow> thread_state \<Rightarrow> thread_state" where
  "var_scope_enter g st = st\<lparr>var_scopes := g # var_scopes st\<rparr>"

definition var_scope_exit :: "thread_state \<Rightarrow> thread_state" where
  "var_scope_exit st = st\<lparr>var_scopes := tl (var_scopes st)\<rparr>"

definition var_creator_scope_enter :: "strategy \<Rightarrow> thread_state \<Rightarrow> thread_state" where
  "var_creator_scope_enter c st = st\<lparr>var_creator_scopes := c # var_creator_scopes st\<rparr>"

definition var_creator_scope_exit :: "thread_state \<Rightarrow> thread_state" where
  "var_creator_scope_exit st = st\<lparr>var_creator_scopes := tl (var_creator_scopes st)\<rparr>"

definition device_scope_enter :: "pyval \<Rightarrow> thread_state \<Rightarrow> thread_state" where
  "device_scope_enter d st = st\<lparr>device_scopes := d # device_scopes st\<rparr>"

definition device_scope_exit :: "thread_state \<Rightarrow> thread_state" where
  "device_scope_exit st = st\<lparr>device_scopes := tl (device_scopes st)\<rparr>"

definition colocate_with_enter :: "pyval \<Rightarrow> thread_state \<Rightarrow> thread_state" where
  "colocate_with_enter v st = st\<lparr>colocation_scopes := v # colocation_scopes st\<rparr>"

definition colocate_with_exit :: "thread_state \<Rightarrow> thread_state" where
  "colocate_with_exit st = st\<lparr>colocation_scopes := tl (colocation_scopes st)\<rparr>"

fun scope_enter :: "scope_manager \<Rightarrow> thread_state \<Rightarrow> strategy \<times> thread_state" where
  "scope_enter (CurrentDistributionContext ds creator var_scope device_scope) st =
     (let st = push_per_thread_mode (CrossReplicaThreadMode ds) st;
          st = (case var_scope of None \<Rightarrow> st | Some g \<Rightarrow> var_scope_enter g st);
          st = var_creator_scope_enter creator st;
          st = (case device_scope of None \<Rightarrow> st | Some d \<Rightarrow> device_scope_enter d st)
      in (ds, st))"
| "scope_enter (SameScopeAgainContext ds) st = (ds, st)"

fun scope_exit :: "scope_manager \<Rightarrow> thread_state \<Rightarrow> thread_state" where
  "scope_exit (CurrentDistributionContext ds creator var_scope device_scope) st =
     (let st = (case device_scope of None \<Rightarrow> st | Some d \<Rightarrow> device_scope_exit st);
          st = var_creator_scope_exit st;
          st = (case var_scope of None \<Rightarrow> st | Some g \<Rightarrow> var_scope_exit st)
      in pop_per_thread_mode st)"
| "scope_exit (SameScopeAgainContext ds) st = st"

text \<open>
  \<open>DistributionStrategy.scope\<close>; \<open>default_device\<close> is the strategy's
  \<open>_default_device\<close>.
\<close>

definition scope :: "pyval \<Rightarrow> strategy \<Rightarrow> thread_state \<Rightarrow> error + scope_manager" where
  "scope default_device self st =
     (if has_distribution_strategy st then
        (case require_cross_replica_context st self of
           Inl e \<Rightarrow> Inl e
         | Inr _ \<Rightarrow> Inr (SameScopeAgainContext self))
      else Inr (new_current_distribution_context self self (Some self) default_device))"

text \<open>\<open>_DefaultDistributionStrategy.scope\<close>.\<close>

definition default_scope :: "strategy \<Rightarrow> thread_state \<Rightarrow> error + scope_manager" where
  "default_scope self st =
     (if has_distribution_strategy st then Inl MustNotNest
      else Inr (new_current_distribution_context self self None PyNone))"

section \<open>DistributionStrategy\<close>

text \<open>
  A method of the base class that calls \<open>self._m(...)\<close> takes what that name resolves
  to as its first argument, written \<open>m_hook\<close>; \<open>base_m_hook\<close> is the method of
  \<open>DistributionStrategy\<close> and \<open>default_m_hook\<close> the one of
  \<open>_DefaultDistributionStrategy\<close>.
\<close>

datatype reduce_op = ReduceOp_SUM | ReduceOp_MEAN | ReduceOp_ONLY_FIRST_REPLICA

datatype variable_aggregation =
    VariableAggregation_NONE
  | VariableAggregation_SUM
  | VariableAggregation_MEAN
  | VariableAggregation_ONLY_FIRST_REPLICA

datatype aggregation = ReduceOp reduce_op | VariableAggregation variable_aggregation

text \<open>
  Modelled from the spec: \<open>ReduceOp.from_variable_aggregation\<close> is not part of the
  source at hand; the three reduce operations \<open>SUM\<close>, \<open>MEAN\<close> and
  \<open>ONLY_FIRST_REPLICA\<close> are taken to be those of the same name.
\<close>

fun from_variable_aggregation :: "variable_aggregation \<Rightarrow> error + reduce_op" where
  "from_variable_aggregation VariableAggregation_SUM = Inr ReduceOp_SUM"
| "from_variable_aggregation VariableAggregation_MEAN = Inr ReduceOp_MEAN"
| "from_variable_aggregation VariableAggregation_ONLY_FIRST_REPLICA =
     Inr ReduceOp_ONLY_FIRST_REPLICA"
| "from_variable_aggregation VariableAggregation_NONE = Inl ValueError"

text \<open>The lines shared by \<open>reduce\<close> and \<open>batch_reduce\<close> that turn the old enum into the new.\<close>

fun to_reduce_op :: "aggregation \<Rightarrow> error + aggregation" where
  "to_reduce_op (ReduceOp r) = Inr (ReduceOp r)"
| "to_reduce_op (VariableAggregation a) =
     (if a \<in> set [VariableAggregation_SUM, VariableAggregation_MEAN,
                   VariableAggregation_ONLY_FIRST_REPLICA]
      then map_sum id ReduceOp (from_variable_aggregation a)
      else Inl AssertionError)"

type_synonym reduce_hook = "strategy \<Rightarrow> aggregation \<Rightarrow> pyval \<Rightarrow> pyval \<Rightarrow> error + pyval"

definition reduce ::
    "reduce_hook \<Rightarrow> thread_state \<Rightarrow> strategy \<Rightarrow> aggregation \<Rightarrow> pyval \<Rightarrow> pyval \<Rightarrow> error + pyval" where
  "reduce reduce_hook st self aggregation v destinations =
     (case require_cross_replica_context st self of
        Inl e \<Rightarrow> Inl e
      | Inr _ \<Rightarrow>
          (case to_reduce_op aggregation of
             Inl e \<Rightarrow> Inl e
           | Inr reduce_op \<Rightarrow> reduce_hook self reduce_op v destinations))"

definition base_reduce_hook :: reduce_hook where
  "base_reduce_hook self reduce_op v destinations = Inl NotImplementedError"

definition default_reduce_hook :: reduce_hook where
  "default_reduce_hook self reduce_op v destinations = Inr v"

definition base_batch_reduce_hook ::
    "reduce_hook \<Rightarrow> thread_state \<Rightarrow> strategy \<Rightarrow> aggregation \<Rightarrow> (pyval \<times> pyval) list
       \<Rightarrow> error + pyval list" where
  "base_batch_reduce_hook reduce_hook st self reduce_op value_destination_pairs =
     sequence_results
       (map (\<lambda>(t, v). reduce reduce_hook st self reduce_op t v) value_destination_pairs)"

definition batch_reduce ::
    "reduce_hook \<Rightarrow> thread_state \<Rightarrow> strategy \<Rightarrow> aggregation \<Rightarrow> (pyval \<times> pyval) list
       \<Rightarrow> error + pyval list" where
  "batch_reduce reduce_hook st self aggregation value_destination_pairs =
     (case require_cross_replica_context st self of
        Inl e \<Rightarrow> Inl e
      | Inr _ \<Rightarrow>
          (case to_reduce_op aggregation of
             Inl e \<Rightarrow> Inl e
           | Inr reduce_op \<Rightarrow>
               base_batch_reduce_hook reduce_hook st self reduce_op value_destination_pairs))"

type_synonym broadcast_hook = "strategy \<Rightarrow> pyval \<Rightarrow> pyval \<Rightarrow> error + pyval"

definition broadcast ::
    "broadcast_hook \<Rightarrow> thread_state \<Rightarrow> strategy \<Rightarrow> pyval \<Rightarrow> pyval \<Rightarrow> error + pyval" where
  "broadcast broadcast_hook st self tensor destinations =
     (case require_cross_replica_context st self of
        Inl e \<Rightarrow> Inl e
      | Inr _ \<Rightarrow> broadcast_hook self tensor destinations)"

definition base_broadcast_hook :: broadcast_hook where
  "base_broadcast_hook self tensor destinations = Inl NotImplementedError"

definition default_broadcast_hook :: broadcast_hook where
  "default_broadcast_hook self tensor destinations =
     (if destinations = PyNone then Inr tensor else Inl NotImplementedError)"

type_synonym unwrap_hook = "strategy \<Rightarrow> pyval \<Rightarrow> error + pyval"

definition unwrap :: "unwrap_hook \<Rightarrow> strategy \<Rightarrow> pyval \<Rightarrow> error + pyval" where
  "unwrap unwrap_hook self v = unwrap_hook self v"

definition base_unwrap_hook :: unwrap_hook where
  "base_unwrap_hook self distributed_value = Inl NotImplementedError"

definition default_unwrap_hook :: unwrap_hook where
  "default_unwrap_hook self distributed_value = Inr (PyList [distributed_value])"

type_synonym steps_hook =
  "strategy \<Rightarrow> pyval \<Rightarrow> pyval \<Rightarrow> pyval \<Rightarrow> pyval \<Rightarrow> thread_state \<Rightarrow> pyval result"

definition run_steps_on_dataset ::
    "steps_hook \<Rightarrow> strategy \<Rightarrow> pyval \<Rightarrow> pyval \<Rightarrow> pyval \<Rightarrow> pyval \<Rightarrow> thread_state
       \<Rightarrow> pyval result" where
  "run_steps_on_dataset steps_hook self fn iterator iterations initial_loop_values st =
     (case require_cross_replica_context st self of
        Inl e \<Rightarrow> (Inl e, st)
      | Inr _ \<Rightarrow> steps_hook self fn iterator iterations initial_loop_values st)"

definition base_run_steps_on_dataset_hook :: steps_hook where
  "base_run_steps_on_dataset_hook self fn iterator iterations initial_loop_values st =
     (Inl NotImplementedError, st)"

subsection \<open>\<open>call_for_each_replica\<close>\<close>

type_synonym replica_hook =
  "strategy \<Rightarrow> user_fn \<Rightarrow> pyval \<Rightarrow> pyval \<Rightarrow> thread_state \<Rightarrow> pyval result"

definition call_for_each_replica ::
    "replica_hook \<Rightarrow> strategy \<Rightarrow> user_fn \<Rightarrow> pyval list \<Rightarrow> kwargs \<Rightarrow> thread_state
       \<Rightarrow> pyval result" where
  "call_for_each_replica replica_hook self fn args kwargs st =
     (case require_cross_replica_context st self of
        Inl e \<Rightarrow> (Inl e, st)
      | Inr _ \<Rightarrow>
          (let (a, kwargs) = kwargs_pop kwargs ''args'' PyNone in
           if a \<noteq> PyNone \<and> args \<noteq> [] then (Inl (CantPassArgs ''call_for_each_replica''), st)
           else
             (let args = (if a \<noteq> PyNone then a else PyTuple args);
                  (k, kwargs) = kwargs_pop kwargs ''kwargs'' PyNone in
              if k \<noteq> PyNone \<and> kwargs \<noteq> []
              then (Inl (CantPassKwargs ''call_for_each_replica''), st)
              else
                (let kwargs = (if k \<noteq> PyNone then k else PyDict kwargs) in
                 case pop_discard kwargs ''run_concurrently'' of
                   Inl e \<Rightarrow> (Inl e, st)
                 | Inr kwargs \<Rightarrow> replica_hook self fn args kwargs st))))"

definition base_call_for_each_replica_hook :: replica_hook where
  "base_call_for_each_replica_hook self fn args kwargs st = (Inl NotImplementedError, st)"

subsection \<open>\<open>update\<close> and \<open>update_non_slot\<close>\<close>

type_synonym update_hook =
  "strategy \<Rightarrow> pyval \<Rightarrow> user_fn \<Rightarrow> pyval \<Rightarrow> pyval \<Rightarrow> pyval \<Rightarrow> thread_state \<Rightarrow> pyval result"

definition update ::
    "update_hook \<Rightarrow> strategy \<Rightarrow> pyval \<Rightarrow> user_fn \<Rightarrow> pyval list \<Rightarrow> kwargs \<Rightarrow> thread_state
       \<Rightarrow> pyval result" where
  "update update_hook self var fn args kwargs st =
     (case require_cross_replica_context st self of
        Inl e \<Rightarrow> (Inl e, st)
      | Inr _ \<Rightarrow>
          (let (group_flag, kwargs) = kwargs_pop kwargs ''group'' (PyBool True);
               (grouped, kwargs) = kwargs_pop kwargs ''grouped'' (PyBool True);
               group_flag = py_and grouped group_flag;
               (a, kwargs) = kwargs_pop kwargs ''args'' PyNone in
           if a \<noteq> PyNone \<and> args \<noteq> [] then (Inl (CantPassArgs ''update''), st)
           else
             (let args = (if a \<noteq> PyNone then a else PyTuple args);
                  (k, kwargs) = kwargs_pop kwargs ''kwargs'' PyNone in
              if k \<noteq> PyNone \<and> kwargs \<noteq> [] then (Inl (CantPassKwargs ''update''), st)
              else
                (let kwargs = (if k \<noteq> PyNone then k else PyDict kwargs) in
                 update_hook self var fn args kwargs group_flag st))))"

definition update_non_slot ::
    "update_hook \<Rightarrow> strategy \<Rightarrow> pyval \<Rightarrow> user_fn \<Rightarrow> pyval list \<Rightarrow> kwargs \<Rightarrow> thread_state
       \<Rightarrow> pyval result" where
  "update_non_slot update_non_slot_hook self colocate_with fn args kwargs st =
     (case require_cross_replica_context st self of
        Inl e \<Rightarrow> (Inl e, st)
      | Inr _ \<Rightarrow>
          (let (group_flag, kwargs) = kwargs_pop kwargs ''group'' (PyBool True);
               (grouped, kwargs) = kwargs_pop kwargs ''grouped'' (PyBool True);
               group_flag = py_and grouped group_flag;
               (a, kwargs) = kwargs_pop kwargs ''args'' PyNone in
           if a \<noteq> PyNone \<and> args \<noteq> [] then (Inl (CantPassArgs ''update_non_slot''), st)
           else
             (let args = (if a \<noteq> PyNone then a else PyTuple args);
                  (k, kwargs) = kwargs_pop kwargs ''kwargs'' PyNone in
              if k \<noteq> PyNone \<and> kwargs \<noteq> []
              then (Inl (CantPassKwargs ''update_non_slot''), st)
              else
                (let kwargs = (if k \<noteq> PyNone then k else PyDict kwargs) in
                 update_non_slot_hook self colocate_with fn args kwargs group_flag st))))"

definition base_update_hook :: update_hook where
  "base_update_hook self var fn args kwargs group_flag st = (Inl NotImplementedError, st)"

definition base_update_non_slot_hook :: update_hook where
  "base_update_non_slot_hook self colocate_with fn args kwargs group_flag st =
     (Inl NotImplementedError, st)"

section \<open>ReplicaContext\<close>

text \<open>
  \<open>ReplicaContext(distribution_strategy, replica_id_in_sync_group)\<close> makes a new object;
  its \<open>_thread_context\<close> is \<open>InReplicaThreadMode\<close> of the object itself.
\<close>

definition new_replica_context ::
    "strategy \<Rightarrow> int \<Rightarrow> thread_state \<Rightarrow> replica_context \<times> thread_state" where
  "new_replica_context ds replica_id st =
     (\<lparr>rc_object = next_object st, rc_distribution_strategy = ds,
        rc_replica_id_in_sync_group = replica_id\<rparr>,
      st\<lparr>next_object := Suc (next_object st)\<rparr>)"

definition replica_context_enter :: "replica_context \<Rightarrow> thread_state \<Rightarrow> thread_state" where
  "replica_context_enter self st = push_per_thread_mode (InReplicaThreadMode self) st"

definition replica_context_exit :: "replica_context \<Rightarrow> thread_state \<Rightarrow> thread_state" where
  "replica_context_exit self st = pop_per_thread_mode st"

definition call_merge_fn ::
    "merge_fn \<Rightarrow> strategy \<Rightarrow> pyval \<Rightarrow> pyval \<Rightarrow> thread_state \<Rightarrow> pyval result" where
  "call_merge_fn merge_fn ds args kwargs st =
     (case star_args args of
        Inl e \<Rightarrow> (Inl e, st)
      | Inr a \<Rightarrow>
          (case star_kwargs kwargs of
             Inl e \<Rightarrow> (Inl e, st)
           | Inr k \<Rightarrow> merge_fn ds a k st))"

text \<open>\<open>ReplicaContext._merge_call\<close>: the \<open>finally\<close> clause pops on both outcomes.\<close>

definition merge_call_hook ::
    "replica_context \<Rightarrow> merge_fn \<Rightarrow> pyval \<Rightarrow> pyval \<Rightarrow> thread_state \<Rightarrow> pyval result" where
  "merge_call_hook self merge_fn args kwargs st =
     (let st = push_per_thread_mode
                 (CrossReplicaThreadMode (rc_distribution_strategy self)) st;
          (r, st) = call_merge_fn merge_fn (rc_distribution_strategy self) args kwargs st
      in (r, pop_per_thread_mode st))"

definition merge_call ::
    "replica_context \<Rightarrow> merge_fn \<Rightarrow> pyval list \<Rightarrow> kwargs \<Rightarrow> thread_state \<Rightarrow> pyval result" where
  "merge_call self merge_fn args kwargs st =
     (case require_replica_context st self of
        Inl e \<Rightarrow> (Inl e, st)
      | Inr _ \<Rightarrow>
          (let (a, kwargs) = kwargs_pop kwargs ''args'' PyNone in
           if a \<noteq> PyNone \<and> args \<noteq> [] then (Inl (CantPassArgs ''merge_call''), st)
           else
             (let args = (if a \<noteq> PyNone then a else PyTuple args);
                  (k, kwargs) = kwargs_pop kwargs ''kwargs'' PyNone in
              if k \<noteq> PyNone \<and> kwargs \<noteq> [] then (Inl (CantPassKwargs ''merge_call''), st)
              else
                (let kwargs = (if k \<noteq> PyNone then k else PyDict kwargs) in
                 merge_call_hook self merge_fn args kwargs st))))"

section \<open>The default strategy\<close>

text \<open>
  \<open>_DefaultDistributionStrategy._call_for_each_replica\<close>: the \<open>with\<close> statement
  leaves the replica context on both outcomes, and \<open>__exit__\<close> lets the exception pass.
\<close>

definition default_call_for_each_replica_hook :: replica_hook where
  "default_call_for_each_replica_hook self fn args kwargs st =
     (let (ctx, st) = new_replica_context self 0 st;
          st = replica_context_enter ctx st;
          (r, st) = call_fn fn args kwargs st
      in (r, replica_context_exit ctx st))"

text \<open>
  \<open>_DefaultDistributionStrategy._update_non_slot\<close>. Both context managers are left
  on both outcomes, the \<open>UpdateContext\<close> first.
\<close>

definition default_update_non_slot_hook :: update_hook where
  "default_update_non_slot_hook self colocate_with fn args kwargs should_group st =
     (let st = colocate_with_enter colocate_with st;
          (old_device, st) = update_context_enter colocate_with st;
          (r, st) = call_fn fn args kwargs st;
          r = (case r of
                 Inl e \<Rightarrow> Inl e
               | Inr result \<Rightarrow>
                   if truthy should_group then Inr result
                   else map_structure (default_unwrap_hook self) result);
          st = update_context_exit old_device st
      in (r, colocate_with_exit st))"

text \<open>\<open>_DefaultDistributionStrategy._update\<close>; \<open>tuple(args)\<close> raises on what cannot be iterated.\<close>

definition default_update_hook :: update_hook where
  "default_update_hook self var fn args kwargs group_flag st =
     (case star_args args of
        Inl e \<Rightarrow> (Inl e, st)
      | Inr a \<Rightarrow>
          default_update_non_slot_hook self var fn (PyTuple (var # a)) kwargs group_flag st)"

section \<open>Callers\<close>

text \<open>A thread on which nothing has been entered yet.\<close>

definition fresh_thread :: thread_state where
  "fresh_thread =
     \<lparr>mode_stack = [], update_device_current = None, var_scopes = [],
      var_creator_scopes = [], device_scopes = [], colocation_scopes = [], next_object = 0\<rparr>"

text \<open>
  The dictionary a method with \<open>**kwargs\<close> receives from a call
  \<open>m(..., args=a, kwargs=k, **direct)\<close>, where \<open>a\<close> and \<open>k\<close> may be left out, and
  the entries a call adds by writing \<open>group=g\<close> and \<open>grouped=gd\<close>.
\<close>

definition keyword_arguments :: "kwargs \<Rightarrow> pyval option \<Rightarrow> pyval option \<Rightarrow> kwargs" where
  "keyword_arguments direct a k =
     direct @ (case a of None \<Rightarrow> [] | Some v \<Rightarrow> [(''args'', v)])
            @ (case k of None \<Rightarrow> [] | Some v \<Rightarrow> [(''kwargs'', v)])"

definition group_arguments :: "pyval option \<Rightarrow> pyval option \<Rightarrow> kwargs" where
  "group_arguments g gd =
     (case g of None \<Rightarrow> [] | Some v \<Rightarrow> [(''group'', v)])
     @ (case gd of None \<Rightarrow> [] | Some v \<Rightarrow> [(''grouped'', v)])"

definition or_true :: "pyval option \<Rightarrow> pyval" where
  "or_true x = (case x of None \<Rightarrow> PyBool True | Some v \<Rightarrow> v)"

text \<open>
  The argument-passing convention in the words of the specification: positional
  arguments come either as trailing arguments \<open>pos\<close> or in the container \<open>a\<close>,
  keyword arguments either directly or in the container \<open>k\<close>; both forms at once are
  an error, one form is handed on as it is.
\<close>

definition argument_convention ::
    "string \<Rightarrow> pyval list \<Rightarrow> kwargs \<Rightarrow> pyval option \<Rightarrow> pyval option
       \<Rightarrow> error + pyval \<times> pyval" where
  "argument_convention m pos direct a k =
     (if a \<noteq> None \<and> pos \<noteq> [] then Inl (CantPassArgs m)
      else if k \<noteq> None \<and> direct \<noteq> [] then Inl (CantPassKwargs m)
      else Inr (case a of None \<Rightarrow> PyTuple pos | Some v \<Rightarrow> v,
                case k of None \<Rightarrow> PyDict direct | Some v \<Rightarrow> v))"

text \<open>
  The same convention for the function the method wraps: \<open>ae\<close> are the elements of
  the container \<open>args=\<close> and \<open>ki\<close> the entries of the container \<open>kwargs=\<close>, where the call
  gives them. Both forms at once are an error; otherwise the function is to get the
  positional and the keyword arguments of the one form that was used.
\<close>

definition supplied_arguments ::
    "string \<Rightarrow> pyval list \<Rightarrow> kwargs \<Rightarrow> pyval list option \<Rightarrow> kwargs option
       \<Rightarrow> error + pyval list \<times> kwargs" where
  "supplied_arguments m pos direct ae ki =
     (if ae \<noteq> None \<and> pos \<noteq> [] then Inl (CantPassArgs m)
      else if ki \<noteq> None \<and> direct \<noteq> [] then Inl (CantPassKwargs m)
      else Inr (case ae of None \<Rightarrow> pos | Some xs \<Rightarrow> xs,
                case ki of None \<Rightarrow> direct | Some kv \<Rightarrow> kv))"

text \<open>A function that returns the positional and the keyword arguments it was called with.\<close>

definition echo_arguments :: user_fn where
  "echo_arguments a k st = (Inr (PyTuple [PyTuple a, PyDict k]), st)"



fun is_error :: "error + 'a \<Rightarrow> bool" where
  "is_error (Inl e) = True"
| "is_error (Inr v) = False"

section \<open>Properties\<close>

subsection \<open>The mode stack\<close>

lemma mode_stack_push [simp]:
  "mode_stack (push_per_thread_mode m st) = m # mode_stack st"
  by (simp add: push_per_thread_mode_def)

lemma mode_stack_pop [simp]:
  "mode_stack (pop_per_thread_mode st) = tl (mode_stack st)"
  by (simp add: pop_per_thread_mode_def)

lemma get_mode_push [simp]:
  "get_per_thread_mode (push_per_thread_mode m st) = m"
  by (simp add: get_per_thread_mode_def)

lemma pop_push [simp]:
  "pop_per_thread_mode (push_per_thread_mode m st) = st"
  by (simp add: pop_per_thread_mode_def push_per_thread_mode_def)

lemma get_mode_cong:
  "mode_stack st' = mode_stack st \<Longrightarrow> get_per_thread_mode st' = get_per_thread_mode st"
  by (simp add: get_per_thread_mode_def)

lemma guard_ok_iff:
  "require_cross_replica_context st s = Inr () \<longleftrightarrow>
   get_per_thread_mode st = CrossReplicaThreadMode s"
  by (cases "get_per_thread_mode st")
     (auto simp: require_cross_replica_context_def has_distribution_strategy_def Let_def)

lemma guard_default:
  "get_per_thread_mode st = DefaultReplicaThreadMode \<Longrightarrow>
   require_cross_replica_context st s = Inl (NeedScope s)"
  by (simp add: require_cross_replica_context_def has_distribution_strategy_def)

lemma guard_other_cross:
  "get_per_thread_mode st = CrossReplicaThreadMode t \<Longrightarrow> t \<noteq> s \<Longrightarrow>
   require_cross_replica_context st s = Inl (MixingStrategies (Some t) s)"
  by (simp add: require_cross_replica_context_def has_distribution_strategy_def)

lemma guard_other_replica:
  "get_per_thread_mode st = InReplicaThreadMode r \<Longrightarrow> rc_distribution_strategy r \<noteq> s \<Longrightarrow>
   require_cross_replica_context st s =
     Inl (MixingStrategies (Some (rc_distribution_strategy r)) s)"
  by (simp add: require_cross_replica_context_def has_distribution_strategy_def)

lemma guard_same_replica:
  "get_per_thread_mode st = InReplicaThreadMode r \<Longrightarrow> rc_distribution_strategy r = s \<Longrightarrow>
   require_cross_replica_context st s = Inl RequiresCrossReplica"
  by (simp add: require_cross_replica_context_def has_distribution_strategy_def)

lemma guard_fails_pure:
  assumes "require_cross_replica_context st s = Inl e"
  shows "reduce rh st s agg v d = Inl e"
    and "batch_reduce rh st s agg ps = Inl e"
    and "broadcast bh st s v d = Inl e"
  using assms by (simp_all add: reduce_def batch_reduce_def broadcast_def)

lemma guard_fails_stateful:
  assumes "require_cross_replica_context st s = Inl e"
  shows "update uh s var fn args kw st = (Inl e, st)"
    and "update_non_slot nh s c fn args kw st = (Inl e, st)"
    and "call_for_each_replica ch s fn args kw st = (Inl e, st)"
    and "run_steps_on_dataset sh s f it n ini st = (Inl e, st)"
  using assms
  by (simp_all add: update_def update_non_slot_def call_for_each_replica_def
        run_steps_on_dataset_def)

subsection \<open>User code that leaves the mode stack as it found it\<close>

lemma call_fn_keeps_stack:
  assumes "\<forall>a k st'. mode_stack (snd (fn a k st')) = mode_stack st'"
  shows "mode_stack (snd (call_fn fn args kwargs st)) = mode_stack st"
  using assms by (simp add: call_fn_def split: sum.splits)

lemma call_merge_fn_keeps_stack:
  assumes "\<forall>s a k st'. mode_stack (snd (mf s a k st')) = mode_stack st'"
  shows "mode_stack (snd (call_merge_fn mf ds args kwargs st)) = mode_stack st"
  using assms by (simp add: call_merge_fn_def split: sum.splits)

lemma merge_call_hook_keeps_stack:
  assumes "\<forall>s a k st'. mode_stack (snd (mf s a k st')) = mode_stack st'"
  shows "mode_stack (snd (merge_call_hook r mf args kwargs st)) = mode_stack st"
proof -
  let ?st1 = "push_per_thread_mode (CrossReplicaThreadMode (rc_distribution_strategy r)) st"
  obtain res st2 where
    run: "call_merge_fn mf (rc_distribution_strategy r) args kwargs ?st1 = (res, st2)"
    by (cases "call_merge_fn mf (rc_distribution_strategy r) args kwargs ?st1")
  from call_merge_fn_keeps_stack[OF assms, of "rc_distribution_strategy r" args kwargs ?st1] run
  have "mode_stack st2 = CrossReplicaThreadMode (rc_distribution_strategy r) # mode_stack st"
    by simp
  with run show ?thesis
    by (simp add: merge_call_hook_def)
qed

lemma merge_call_keeps_stack:
  assumes "\<forall>s a k st'. mode_stack (snd (mf s a k st')) = mode_stack st'"
  shows "mode_stack (snd (merge_call r mf args kwargs st)) = mode_stack st"
  using merge_call_hook_keeps_stack[OF assms]
  by (simp add: merge_call_def Let_def split: sum.splits prod.splits)

lemma default_hook_keeps_stack:
  assumes "\<forall>a k st'. mode_stack (snd (fn a k st')) = mode_stack st'"
  shows "mode_stack (snd (default_call_for_each_replica_hook s fn args kwargs st)) =
         mode_stack st"
proof -
  obtain ctx st1 where new: "new_replica_context s 0 st = (ctx, st1)"
    by (cases "new_replica_context s 0 st")
  then have st1: "mode_stack st1 = mode_stack st"
    by (auto simp: new_replica_context_def)
  obtain res st2 where run: "call_fn fn args kwargs (replica_context_enter ctx st1) = (res, st2)"
    by (cases "call_fn fn args kwargs (replica_context_enter ctx st1)")
  from call_fn_keeps_stack[OF assms, of args kwargs "replica_context_enter ctx st1"] run st1
  have "mode_stack st2 = InReplicaThreadMode ctx # mode_stack st"
    by (simp add: replica_context_enter_def)
  with new run show ?thesis
    by (simp add: default_call_for_each_replica_hook_def replica_context_exit_def)
qed

lemma call_for_each_replica_keeps_stack:
  assumes "\<forall>a k st'. mode_stack (snd (h s fn a k st')) = mode_stack st'"
  shows "mode_stack (snd (call_for_each_replica h s fn args kwargs st)) = mode_stack st"
  using assms
  by (simp add: call_for_each_replica_def Let_def split: sum.splits prod.splits)

subsection \<open>Keyword dictionaries\<close>

lemma kwargs_pop_absent:
  "key \<notin> fst ` set kw \<Longrightarrow> kwargs_pop kw key d = (d, kw)"
  by (simp add: kwargs_pop_def map_of_eq_None_iff[THEN iffD2])

lemma filter_absent:
  "key \<notin> fst ` set kw \<Longrightarrow> filter (\<lambda>kv. fst kv \<noteq> key) kw = kw"
  by (induction kw) auto

lemma kwargs_pop_args:
  assumes "''args'' \<notin> fst ` set direct"
  shows "kwargs_pop (keyword_arguments direct a k) ''args'' PyNone =
           (case a of None \<Rightarrow> PyNone | Some v \<Rightarrow> v, keyword_arguments direct None k)"
  using assms
  by (cases a; cases k)
     (auto simp: kwargs_pop_def keyword_arguments_def filter_absent map_add_def
           map_of_eq_None_iff[THEN iffD2] split: option.splits)

lemma kwargs_pop_kwargs:
  assumes "''kwargs'' \<notin> fst ` set direct"
  shows "kwargs_pop (keyword_arguments direct None k) ''kwargs'' PyNone =
           (case k of None \<Rightarrow> PyNone | Some v \<Rightarrow> v, direct)"
  using assms
  by (cases k)
     (auto simp: kwargs_pop_def keyword_arguments_def filter_absent map_add_def
           map_of_eq_None_iff[THEN iffD2] split: option.splits)

lemma keyword_arguments_keys:
  "key \<noteq> ''args'' \<Longrightarrow> key \<noteq> ''kwargs'' \<Longrightarrow> key \<notin> fst ` set direct \<Longrightarrow>
   key \<notin> fst ` set (keyword_arguments direct a k)"
  by (auto simp: keyword_arguments_def split: option.splits)





lemma convention_update:
  assumes "''args'' \<notin> fst ` set direct" "''kwargs'' \<notin> fst ` set direct"
    and "''group'' \<notin> fst ` set direct" "''grouped'' \<notin> fst ` set direct"
    and "a \<noteq> Some PyNone" "k \<noteq> Some PyNone"
    and "require_cross_replica_context st s = Inr ()"
  shows "update h s var fn pos (keyword_arguments direct a k) st =
     (case argument_convention ''update'' pos direct a k of
        Inl e \<Rightarrow> (Inl e, st)
      | Inr (args', kwargs') \<Rightarrow> h s var fn args' kwargs' (PyBool True) st)"
  using assms
  by (cases a; cases k)
     (auto simp: update_def kwargs_pop_args kwargs_pop_kwargs py_and_def
        kwargs_pop_absent[OF keyword_arguments_keys] argument_convention_def)

lemma convention_update_non_slot:
  assumes "''args'' \<notin> fst ` set direct" "''kwargs'' \<notin> fst ` set direct"
    and "''group'' \<notin> fst ` set direct" "''grouped'' \<notin> fst ` set direct"
    and "a \<noteq> Some PyNone" "k \<noteq> Some PyNone"
    and "require_cross_replica_context st s = Inr ()"
  shows "update_non_slot h s c fn pos (keyword_arguments direct a k) st =
     (case argument_convention ''update_non_slot'' pos direct a k of
        Inl e \<Rightarrow> (Inl e, st)
      | Inr (args', kwargs') \<Rightarrow> h s c fn args' kwargs' (PyBool True) st)"
  using assms
  by (cases a; cases k)
     (auto simp: update_non_slot_def kwargs_pop_args kwargs_pop_kwargs py_and_def
        kwargs_pop_absent[OF keyword_arguments_keys] argument_convention_def)

lemma kwargs_pop_group:
  assumes "''group'' \<notin> fst ` set rest"
  shows "kwargs_pop (group_arguments g gd @ rest) ''group'' (PyBool True) =
           (or_true g, group_arguments None gd @ rest)"
  using assms
  by (cases g; cases gd)
     (auto simp: kwargs_pop_def group_arguments_def or_true_def filter_absent map_add_def
        map_of_eq_None_iff[THEN iffD2] split: option.splits)

lemma kwargs_pop_grouped:
  assumes "''grouped'' \<notin> fst ` set rest"
  shows "kwargs_pop (group_arguments None gd @ rest) ''grouped'' (PyBool True) =
           (or_true gd, rest)"
  using assms
  by (cases gd)
     (auto simp: kwargs_pop_def group_arguments_def or_true_def filter_absent map_add_def
        map_of_eq_None_iff[THEN iffD2] split: option.splits)

lemma group_flag_update:
  assumes "''args'' \<notin> fst ` set direct" "''kwargs'' \<notin> fst ` set direct"
    and "''group'' \<notin> fst ` set direct" "''grouped'' \<notin> fst ` set direct"
    and "a \<noteq> Some PyNone" "k \<noteq> Some PyNone"
    and "require_cross_replica_context st s = Inr ()"
  shows "update h s var fn pos (group_arguments g gd @ keyword_arguments direct a k) st =
     (case argument_convention ''update'' pos direct a k of
        Inl e \<Rightarrow> (Inl e, st)
      | Inr (args', kwargs') \<Rightarrow>
          h s var fn args' kwargs' (py_and (or_true gd) (or_true g)) st)"
  using assms
  by (cases a; cases k)
     (auto simp: update_def kwargs_pop_args kwargs_pop_kwargs
        kwargs_pop_group[OF keyword_arguments_keys]
        kwargs_pop_grouped[OF keyword_arguments_keys] argument_convention_def)

lemma group_flag_update_non_slot:
  assumes "''args'' \<notin> fst ` set direct" "''kwargs'' \<notin> fst ` set direct"
    and "''group'' \<notin> fst ` set direct" "''grouped'' \<notin> fst ` set direct"
    and "a \<noteq> Some PyNone" "k \<noteq> Some PyNone"
    and "require_cross_replica_context st s = Inr ()"
  shows "update_non_slot h s c fn pos (group_arguments g gd @ keyword_arguments direct a k) st =
     (case argument_convention ''update_non_slot'' pos direct a k of
        Inl e \<Rightarrow> (Inl e, st)
      | Inr (args', kwargs') \<Rightarrow>
          h s c fn args' kwargs' (py_and (or_true gd) (or_true g)) st)"
  using assms
  by (cases a; cases k)
     (auto simp: update_non_slot_def kwargs_pop_args kwargs_pop_kwargs
        kwargs_pop_group[OF keyword_arguments_keys]
        kwargs_pop_grouped[OF keyword_arguments_keys] argument_convention_def)



subsection \<open>Reductions\<close>

lemma to_reduce_op_error:
  "to_reduce_op agg = Inl e \<longleftrightarrow>
   agg = VariableAggregation VariableAggregation_NONE \<and> e = AssertionError"
proof (cases agg)
  case (ReduceOp r)
  then show ?thesis by auto
next
  case (VariableAggregation a)
  then show ?thesis by (cases a) auto
qed

lemma to_reduce_op_idem:
  assumes "to_reduce_op agg = Inr op'"
  shows "to_reduce_op op' = Inr op'"
proof (cases agg)
  case (ReduceOp r)
  with assms show ?thesis by auto
next
  case (VariableAggregation a)
  with assms show ?thesis by (cases a) auto
qed

lemma reduce_converted:
  "to_reduce_op agg = Inr op' \<Longrightarrow> reduce rh st s op' t v = reduce rh st s agg t v"
  by (simp add: reduce_def to_reduce_op_idem split: sum.splits)

lemma reduce_guard_error:
  "require_cross_replica_context st s = Inl e \<Longrightarrow> reduce rh st s agg t v = Inl e"
  by (simp add: reduce_def)

lemma reduce_op_error:
  "require_cross_replica_context st s = Inr u \<Longrightarrow> to_reduce_op agg = Inl e \<Longrightarrow>
   reduce rh st s agg t v = Inl e"
  by (simp add: reduce_def)

lemma batch_reduce_map:
  assumes "ps \<noteq> [] \<or> (require_cross_replica_context st s = Inr () \<and>
             agg \<noteq> VariableAggregation VariableAggregation_NONE)"
  shows "batch_reduce rh st s agg ps =
     sequence_results (map (\<lambda>(t, v). reduce rh st s agg t v) ps)"
proof (cases "require_cross_replica_context st s")
  case (Inl e)
  with assms obtain t v ps' where ps: "ps = (t, v) # ps'"
    by (cases ps) auto
  from Inl show ?thesis
    by (simp add: batch_reduce_def ps reduce_guard_error)
next
  case (Inr u)
  show ?thesis
  proof (cases "to_reduce_op agg")
    case (Inl e)
    then have "agg = VariableAggregation VariableAggregation_NONE"
      by (simp add: to_reduce_op_error)
    with assms obtain t v ps' where ps: "ps = (t, v) # ps'"
      by (cases ps) auto
    from Inl Inr show ?thesis
      by (simp add: batch_reduce_def ps reduce_op_error)
  next
    case op: (Inr op')
    from Inr op show ?thesis
      by (simp add: batch_reduce_def base_batch_reduce_hook_def reduce_converted)
  qed
qed

lemma sequence_results_nth:
  "sequence_results (map f xs) = Inr ys \<Longrightarrow>
   length ys = length xs \<and> (\<forall>i < length xs. f (xs ! i) = Inr (ys ! i))"
proof (induction xs arbitrary: ys)
  case Nil
  then show ?case by simp
next
  case (Cons x xs)
  from Cons.prems obtain y where y: "f x = Inr y"
    by (cases "f x") auto
  with Cons.prems obtain zs where zs: "sequence_results (map f xs) = Inr zs" and ys: "ys = y # zs"
    by (cases "sequence_results (map f xs)") auto
  from Cons.IH[OF zs] y ys show ?case
    by (auto simp: nth_Cons split: nat.splits)
qed

lemma sequence_results_total:
  "(\<And>x. x \<in> set xs \<Longrightarrow> \<exists>y. f x = Inr y) \<Longrightarrow> \<exists>ys. sequence_results (map f xs) = Inr ys"
proof (induction xs)
  case Nil
  then show ?case by simp
next
  case (Cons x xs)
  then obtain y where "f x = Inr y" by auto
  moreover from Cons obtain ys where "sequence_results (map f xs) = Inr ys" by auto
  ultimately show ?case by simp
qed

subsection \<open>Ungrouped updates\<close>

lemma truthy_py_and: "truthy (py_and x y) \<longleftrightarrow> truthy x \<and> truthy y"
  by (simp add: py_and_def)

lemma default_update_non_slot_flag:
  "default_update_non_slot_hook s c fn args kwargs flag st =
     (let (r, st') = default_update_non_slot_hook s c fn args kwargs (PyBool True) st
      in ((case r of
             Inl e \<Rightarrow> Inl e
           | Inr result \<Rightarrow>
               if truthy flag then Inr result
               else map_structure (default_unwrap_hook s) result), st'))"
  by (simp add: default_update_non_slot_hook_def Let_def split: prod.splits sum.splits)

lemma default_update_flag:
  "default_update_hook s var fn args kwargs flag st =
     (let (r, st') = default_update_hook s var fn args kwargs (PyBool True) st
      in ((case r of
             Inl e \<Rightarrow> Inl e
           | Inr result \<Rightarrow>
               if truthy flag then Inr result
               else map_structure (default_unwrap_hook s) result), st'))"
  apply (simp add: default_update_hook_def split: sum.splits)
  apply (subst default_update_non_slot_flag)
  apply simp
  done

lemma map_structure_unwrap_total:
  "\<exists>w. map_structure (default_unwrap_hook s) v = Inr w"
proof (induction v)
  case (PyTuple xs)
  then have "\<exists>ys. sequence_results (map (map_structure (default_unwrap_hook s)) xs) = Inr ys"
    by (intro sequence_results_total) auto
  then show ?case by auto
next
  case (PyList xs)
  then have "\<exists>ys. sequence_results (map (map_structure (default_unwrap_hook s)) xs) = Inr ys"
    by (intro sequence_results_total) auto
  then show ?case by auto
next
  case (PyDict kvs)
  then have "\<exists>ys. sequence_results
      (map (\<lambda>kv. map_structure (default_unwrap_hook s) (snd kv)) kvs) = Inr ys"
    by (intro sequence_results_total) (auto simp: snds.simps)
  then show ?case by auto
qed (simp_all add: default_unwrap_hook_def)

lemma map_structure_unwrap_leaf:
  assumes "\<forall>xs. v \<noteq> PyTuple xs" "\<forall>xs. v \<noteq> PyList xs" "\<forall>kvs. v \<noteq> PyDict kvs"
  shows "map_structure (default_unwrap_hook s) v = Inr (PyList [v])"
  using assms by (cases v) (simp_all add: default_unwrap_hook_def)

subsection \<open>What the wrapped function receives\<close>

lemma container_not_none:
  assumes "mk = PyTuple \<or> mk = PyList"
  shows "map_option mk ae \<noteq> Some PyNone" and "map_option PyDict ki \<noteq> Some PyNone"
  using assms by (cases ae; auto)+

lemma convention_of_containers:
  assumes "mk = PyTuple \<or> mk = PyList"
  shows "argument_convention m pos direct (map_option mk ae) (map_option PyDict ki) =
           (case supplied_arguments m pos direct ae ki of
              Inl e \<Rightarrow> Inl e
            | Inr (args', kwargs') \<Rightarrow>
                Inr (case ae of None \<Rightarrow> PyTuple args' | Some xs \<Rightarrow> mk args', PyDict kwargs'))"
  by (cases ae; cases ki) (auto simp: argument_convention_def supplied_arguments_def)

lemma call_fn_unpacked:
  assumes "container = PyTuple args \<or> container = PyList args"
  shows "call_fn fn container (PyDict kwargs) st = fn args kwargs st"
  using assms by (auto simp: call_fn_def)


lemma default_update_non_slot_hook_runs:
  assumes "container = PyTuple args \<or> container = PyList args"
  shows "default_update_non_slot_hook s c fn container (PyDict kwargs) flag st =
     (let st1 = colocate_with_enter c st;
          (old_device, st2) = update_context_enter c st1;
          (r, st3) = fn args kwargs st2
      in ((case r of
             Inl e \<Rightarrow> Inl e
           | Inr result \<Rightarrow>
               if truthy flag then Inr result
               else map_structure (default_unwrap_hook s) result),
          colocate_with_exit (update_context_exit old_device st3)))"
  by (simp add: default_update_non_slot_hook_def call_fn_unpacked[OF assms] Let_def
        split: prod.splits)

lemma default_update_hook_runs:
  assumes "container = PyTuple args \<or> container = PyList args"
  shows "default_update_hook s var fn container (PyDict kwargs) flag st =
     (let st1 = colocate_with_enter var st;
          (old_device, st2) = update_context_enter var st1;
          (r, st3) = fn (var # args) kwargs st2
      in ((case r of
             Inl e \<Rightarrow> Inl e
           | Inr result \<Rightarrow>
               if truthy flag then Inr result
               else map_structure (default_unwrap_hook s) result),
          colocate_with_exit (update_context_exit old_device st3)))"
proof -
  have tuple: "PyTuple (var # args) = PyTuple (var # args) \<or>
               PyTuple (var # args) = PyList (var # args)"
    by simp
  from assms have "star_args container = Inr args" by auto
  then show ?thesis
    by (simp add: default_update_hook_def default_update_non_slot_hook_runs[OF tuple])
qed



lemma some_container:
  assumes "mk = PyTuple \<or> mk = PyList"
  shows "(case ae of None \<Rightarrow> PyTuple xs | Some ys \<Rightarrow> mk xs) = PyTuple xs \<or>
         (case ae of None \<Rightarrow> PyTuple xs | Some ys \<Rightarrow> mk xs) = PyList xs"
  using assms by (cases ae) auto

lemma update_non_slot_reaches_fn:
  assumes "''args'' \<notin> fst ` set direct" "''kwargs'' \<notin> fst ` set direct"
    and "''group'' \<notin> fst ` set direct" "''grouped'' \<notin> fst ` set direct"
    and mk: "mk = PyTuple \<or> mk = PyList"
    and ok: "require_cross_replica_context st s = Inr ()"
  shows "update_non_slot default_update_non_slot_hook s c fn pos
           (group_arguments g gd @
            keyword_arguments direct (map_option mk ae) (map_option PyDict ki)) st =
     (case supplied_arguments ''update_non_slot'' pos direct ae ki of
        Inl e \<Rightarrow> (Inl e, st)
      | Inr (args', kwargs') \<Rightarrow>
          (let st1 = colocate_with_enter c st;
               (old_device, st2) = update_context_enter c st1;
               (r, st3) = fn args' kwargs' st2
           in ((case r of
                  Inl e \<Rightarrow> Inl e
                | Inr result \<Rightarrow>
                    if truthy (or_true g) \<and> truthy (or_true gd) then Inr result
                    else map_structure (default_unwrap_hook s) result),
               colocate_with_exit (update_context_exit old_device st3))))"
proof (cases "supplied_arguments ''update_non_slot'' pos direct ae ki")
  case (Inl e)
  then show ?thesis
    by (simp add: group_flag_update_non_slot[OF assms(1-4) container_not_none[OF mk] ok]
          convention_of_containers[OF mk])
next
  case (Inr p)
  obtain args' kwargs' where p: "p = (args', kwargs')" by (cases p)
  have run: "default_update_non_slot_hook s c fn
               (case ae of None \<Rightarrow> PyTuple args' | Some ys \<Rightarrow> mk args') (PyDict kwargs')
               flag st =
             (let st1 = colocate_with_enter c st;
                  (old_device, st2) = update_context_enter c st1;
                  (r, st3) = fn args' kwargs' st2
              in ((case r of
                     Inl e \<Rightarrow> Inl e
                   | Inr result \<Rightarrow>
                       if truthy flag then Inr result
                       else map_structure (default_unwrap_hook s) result),
                  colocate_with_exit (update_context_exit old_device st3)))" for flag
    by (rule default_update_non_slot_hook_runs[OF some_container[OF mk]])
  from Inr p show ?thesis
    by (simp add: group_flag_update_non_slot[OF assms(1-4) container_not_none[OF mk] ok]
          convention_of_containers[OF mk] run truthy_py_and conj_commute
          split: prod.splits sum.splits)
qed

lemma update_reaches_fn:
  assumes "''args'' \<notin> fst ` set direct" "''kwargs'' \<notin> fst ` set direct"
    and "''group'' \<notin> fst ` set direct" "''grouped'' \<notin> fst ` set direct"
    and mk: "mk = PyTuple \<or> mk = PyList"
    and ok: "require_cross_replica_context st s = Inr ()"
  shows "update default_update_hook s var fn pos
           (group_arguments g gd @
            keyword_arguments direct (map_option mk ae) (map_option PyDict ki)) st =
     (case supplied_arguments ''update'' pos direct ae ki of
        Inl e \<Rightarrow> (Inl e, st)
      | Inr (args', kwargs') \<Rightarrow>
          (let st1 = colocate_with_enter var st;
               (old_device, st2) = update_context_enter var st1;
               (r, st3) = fn (var # args') kwargs' st2
           in ((case r of
                  Inl e \<Rightarrow> Inl e
                | Inr result \<Rightarrow>
                    if truthy (or_true g) \<and> truthy (or_true gd) then Inr result
                    else map_structure (default_unwrap_hook s) result),
               colocate_with_exit (update_context_exit old_device st3))))"
proof (cases "supplied_arguments ''update'' pos direct ae ki")
  case (Inl e)
  then show ?thesis
    by (simp add: group_flag_update[OF assms(1-4) container_not_none[OF mk] ok]
          convention_of_containers[OF mk])
next
  case (Inr p)
  obtain args' kwargs' where p: "p = (args', kwargs')" by (cases p)
  have run: "default_update_hook s var fn
               (case ae of None \<Rightarrow> PyTuple args' | Some ys \<Rightarrow> mk args') (PyDict kwargs')
               flag st =
             (let st1 = colocate_with_enter var st;
                  (old_device, st2) = update_context_enter var st1;
                  (r, st3) = fn (var # args') kwargs' st2
              in ((case r of
                     Inl e \<Rightarrow> Inl e
                   | Inr result \<Rightarrow>
                       if truthy flag then Inr result
                       else map_structure (default_unwrap_hook s) result),
                  colocate_with_exit (update_context_exit old_device st3)))" for flag
    by (rule default_update_hook_runs[OF some_container[OF mk]])
  from Inr p show ?thesis
    by (simp add: group_flag_update[OF assms(1-4) container_not_none[OF mk] ok]
          convention_of_containers[OF mk] run truthy_py_and conj_commute
          split: prod.splits sum.splits)
qed

lemma group_arguments_none [simp]: "group_arguments None None = []"
  by (simp add: group_arguments_def)

lemma or_true_none [simp]: "or_true None = PyBool True"
  by (simp add: or_true_def)



section \<open>The claims\<close>

text \<open>
  Claim C1. Let the thread be inside the replica context \<open>r\<close> and let the merge function
  leave the mode stack as it found it, whether it returns or raises. Then
  \<open>r.merge_call\<close> runs the merge function only with cross-replica mode of \<open>r\<close>'s
  strategy as the current mode (a merge function that refuses every other mode gives
  the same run); called with trailing arguments it runs it on the stack with that mode
  pushed and pops afterwards; and when \<open>merge_call\<close> is over, on either outcome, the
  mode stack is the one before the call, so the current mode is \<open>InReplica\<close> of \<open>r\<close>.
\<close>

theorem merge_call_cross_replica_mode:
  assumes inside: "get_per_thread_mode st = InReplicaThreadMode r"
    and balanced: "\<forall>s a k st'. mode_stack (snd (mf s a k st')) = mode_stack st'"
  shows "merge_call r mf args kwargs st =
           merge_call r
             (\<lambda>s a k st'.
                if s = rc_distribution_strategy r \<and>
                   get_per_thread_mode st' = CrossReplicaThreadMode (rc_distribution_strategy r)
                then mf s a k st' else (Inl AssertionError, st'))
             args kwargs st \<and>
         (map_of kwargs ''args'' = None \<and> map_of kwargs ''kwargs'' = None \<longrightarrow>
            merge_call r mf args kwargs st =
              (let (res, st') =
                     mf (rc_distribution_strategy r) args kwargs
                       (push_per_thread_mode
                          (CrossReplicaThreadMode (rc_distribution_strategy r)) st)
               in (res, pop_per_thread_mode st'))) \<and>
         mode_stack (snd (merge_call r mf args kwargs st)) = mode_stack st \<and>
         get_per_thread_mode (snd (merge_call r mf args kwargs st)) = InReplicaThreadMode r"
proof (intro conjI impI)
  show "merge_call r mf args kwargs st =
           merge_call r
             (\<lambda>s a k st'.
                if s = rc_distribution_strategy r \<and>
                   get_per_thread_mode st' = CrossReplicaThreadMode (rc_distribution_strategy r)
                then mf s a k st' else (Inl AssertionError, st'))
             args kwargs st"
    by (simp add: merge_call_def merge_call_hook_def call_merge_fn_def Let_def
          split: sum.splits prod.splits)
next
  assume "map_of kwargs ''args'' = None \<and> map_of kwargs ''kwargs'' = None"
  with inside show "merge_call r mf args kwargs st =
      (let (res, st') =
             mf (rc_distribution_strategy r) args kwargs
               (push_per_thread_mode (CrossReplicaThreadMode (rc_distribution_strategy r)) st)
       in (res, pop_per_thread_mode st'))"
    by (simp add: merge_call_def require_replica_context_def kwargs_pop_def
          merge_call_hook_def call_merge_fn_def)
next
  show stack: "mode_stack (snd (merge_call r mf args kwargs st)) = mode_stack st"
    by (rule merge_call_keeps_stack[OF balanced])
  from get_mode_cong[OF stack] inside
  show "get_per_thread_mode (snd (merge_call r mf args kwargs st)) = InReplicaThreadMode r"
    by simp
qed

theorem merge_call_cross_replica_mode_witness:
  "merge_call \<lparr>rc_object = 0, rc_distribution_strategy = 1, rc_replica_id_in_sync_group = 0\<rparr>
     (\<lambda>s a k st'.
        (case require_cross_replica_context st' s of
           Inl e \<Rightarrow> Inl e | Inr u \<Rightarrow> Inl (Raised 7), st'))
     [] []
     (replica_context_enter
        \<lparr>rc_object = 0, rc_distribution_strategy = 1, rc_replica_id_in_sync_group = 0\<rparr>
        (push_per_thread_mode (CrossReplicaThreadMode 1) fresh_thread)) =
   (Inl (Raised 7),
    replica_context_enter
      \<lparr>rc_object = 0, rc_distribution_strategy = 1, rc_replica_id_in_sync_group = 0\<rparr>
      (push_per_thread_mode (CrossReplicaThreadMode 1) fresh_thread))"
proof -
  let ?r = "\<lparr>rc_object = 0, rc_distribution_strategy = 1, rc_replica_id_in_sync_group = 0\<rparr>"
  let ?st = "replica_context_enter ?r (push_per_thread_mode (CrossReplicaThreadMode 1) fresh_thread)"
  let ?mf = "\<lambda>s a k st'.
        (case require_cross_replica_context st' s of
           Inl e \<Rightarrow> Inl e | Inr u \<Rightarrow> Inl (Raised 7), st')"
  have inside: "get_per_thread_mode ?st = InReplicaThreadMode ?r"
    by (simp add: replica_context_enter_def)
  have balanced: "\<forall>s a k st'. mode_stack (snd (?mf s a k st')) = mode_stack st'"
    by simp
  from merge_call_cross_replica_mode[OF inside balanced, of "[]" "[]", THEN conjunct2,
         THEN conjunct1]
  show ?thesis
    by (simp add: guard_ok_iff[THEN iffD2] replica_context_enter_def)
qed

text \<open>
  Claim C2. Let the replica function leave the mode stack as it found it, whether it
  returns or raises. Then after \<open>call_for_each_replica\<close>, on every outcome (the guard
  or the argument handling raised, the function returned, the function raised), the
  mode stack is the one before the call, for the default strategy and for the base
  class, whose hook only raises. For the default strategy in its cross-replica context
  and called with trailing arguments, the function runs on the stack with the
  \<open>InReplica\<close> mode of a new replica context pushed, and that mode is popped afterwards.
\<close>

theorem call_for_each_replica_restores_mode_stack:
  assumes balanced: "\<forall>a k st'. mode_stack (snd (fn a k st')) = mode_stack st'"
  shows "mode_stack (snd (call_for_each_replica default_call_for_each_replica_hook
                            s fn args kwargs st)) = mode_stack st \<and>
         mode_stack (snd (call_for_each_replica base_call_for_each_replica_hook
                            s fn args kwargs st)) = mode_stack st \<and>
         (require_cross_replica_context st s = Inr () \<and> map_of kwargs ''args'' = None \<and>
          map_of kwargs ''kwargs'' = None \<and> map_of kwargs ''run_concurrently'' = None \<longrightarrow>
            call_for_each_replica default_call_for_each_replica_hook s fn args kwargs st =
              (let (ctx, st1) = new_replica_context s 0 st;
                   (res, st2) = fn args kwargs
                                  (push_per_thread_mode (InReplicaThreadMode ctx) st1)
               in (res, pop_per_thread_mode st2)))"
proof (intro conjI impI)
  from default_hook_keeps_stack[OF balanced]
  have "\<forall>a k st'. mode_stack (snd (default_call_for_each_replica_hook s fn a k st')) =
          mode_stack st'"
    by simp
  then show "mode_stack (snd (call_for_each_replica default_call_for_each_replica_hook
                                s fn args kwargs st)) = mode_stack st"
    by (rule call_for_each_replica_keeps_stack)
next
  have "\<forall>a k st'. mode_stack (snd (base_call_for_each_replica_hook s fn a k st')) =
          mode_stack st'"
    by (simp add: base_call_for_each_replica_hook_def)
  then show "mode_stack (snd (call_for_each_replica base_call_for_each_replica_hook
                                s fn args kwargs st)) = mode_stack st"
    by (rule call_for_each_replica_keeps_stack)
next
  assume "require_cross_replica_context st s = Inr () \<and> map_of kwargs ''args'' = None \<and>
          map_of kwargs ''kwargs'' = None \<and> map_of kwargs ''run_concurrently'' = None"
  then show "call_for_each_replica default_call_for_each_replica_hook s fn args kwargs st =
              (let (ctx, st1) = new_replica_context s 0 st;
                   (res, st2) = fn args kwargs
                                  (push_per_thread_mode (InReplicaThreadMode ctx) st1)
               in (res, pop_per_thread_mode st2))"
    by (simp add: call_for_each_replica_def kwargs_pop_def
          default_call_for_each_replica_hook_def call_fn_def replica_context_enter_def
          replica_context_exit_def new_replica_context_def)
qed

theorem call_for_each_replica_restores_mode_stack_witness:
  "fst (call_for_each_replica default_call_for_each_replica_hook 1
          (\<lambda>a k st'. (Inl (Raised 3), st')) [] []
          (push_per_thread_mode (CrossReplicaThreadMode 1) fresh_thread)) = Inl (Raised 3) \<and>
   mode_stack (snd (call_for_each_replica default_call_for_each_replica_hook 1
          (\<lambda>a k st'. (Inl (Raised 3), st')) [] []
          (push_per_thread_mode (CrossReplicaThreadMode 1) fresh_thread))) =
     [CrossReplicaThreadMode 1]"
proof -
  have balanced:
    "\<forall>a k st'. mode_stack (snd ((\<lambda>a k st'. (Inl (Raised 3) :: error + pyval, st')) a k st')) =
       mode_stack st'"
    by simp
  from call_for_each_replica_restores_mode_stack[OF balanced, of 1 "[]" "[]"
         "push_per_thread_mode (CrossReplicaThreadMode 1) fresh_thread"]
  show ?thesis
    by (simp add: guard_ok_iff[THEN iffD2] new_replica_context_def fresh_thread_def)
qed

text \<open>
  Claim C3. The guard \<open>_require_cross_replica_context\<close> returns normally iff the
  current mode is cross-replica context for the very strategy asked for. Otherwise it
  raises one of three errors: with no scope active, the error that asks for the scope of
  the strategy; with the scope of another strategy active (in its cross-replica or in
  one of its replica contexts), the error that names both strategies; inside a replica
  context of the strategy itself, the error that points to \<open>merge_call\<close>. The seven
  operations \<open>reduce\<close>, \<open>batch_reduce\<close>, \<open>broadcast\<close>, \<open>update\<close>, \<open>update_non_slot\<close>,
  \<open>call_for_each_replica\<close> and \<open>run_steps_on_dataset\<close> raise the guard's error, and
  leave the state alone, whenever the guard raises.
\<close>

theorem require_cross_replica_context_guard:
  "(require_cross_replica_context st s = Inr () \<longleftrightarrow>
      get_per_thread_mode st = CrossReplicaThreadMode s) \<and>
   (get_per_thread_mode st = DefaultReplicaThreadMode \<longrightarrow>
      require_cross_replica_context st s = Inl (NeedScope s)) \<and>
   (\<forall>t. get_per_thread_mode st = CrossReplicaThreadMode t \<and> t \<noteq> s \<longrightarrow>
      require_cross_replica_context st s = Inl (MixingStrategies (Some t) s)) \<and>
   (\<forall>r. get_per_thread_mode st = InReplicaThreadMode r \<and> rc_distribution_strategy r \<noteq> s \<longrightarrow>
      require_cross_replica_context st s =
        Inl (MixingStrategies (Some (rc_distribution_strategy r)) s)) \<and>
   (\<forall>r. get_per_thread_mode st = InReplicaThreadMode r \<and> rc_distribution_strategy r = s \<longrightarrow>
      require_cross_replica_context st s = Inl RequiresCrossReplica) \<and>
   (\<forall>e. require_cross_replica_context st s = Inl e \<longrightarrow>
      (\<forall>rh agg v d. reduce rh st s agg v d = Inl e) \<and>
      (\<forall>rh agg ps. batch_reduce rh st s agg ps = Inl e) \<and>
      (\<forall>bh v d. broadcast bh st s v d = Inl e) \<and>
      (\<forall>uh var fn args kw. update uh s var fn args kw st = (Inl e, st)) \<and>
      (\<forall>nh c fn args kw. update_non_slot nh s c fn args kw st = (Inl e, st)) \<and>
      (\<forall>ch fn args kw. call_for_each_replica ch s fn args kw st = (Inl e, st)) \<and>
      (\<forall>sh f it n ini. run_steps_on_dataset sh s f it n ini st = (Inl e, st)))"
  by (intro conjI allI impI)
     (simp_all add: guard_ok_iff guard_default guard_other_cross guard_other_replica
        guard_same_replica guard_fails_pure guard_fails_stateful)

theorem require_cross_replica_context_guard_witness:
  "require_cross_replica_context fresh_thread 1 = Inl (NeedScope 1) \<and>
   require_cross_replica_context (push_per_thread_mode (CrossReplicaThreadMode 1) fresh_thread) 1
     = Inr () \<and>
   require_cross_replica_context (push_per_thread_mode (CrossReplicaThreadMode 2) fresh_thread) 1
     = Inl (MixingStrategies (Some 2) 1) \<and>
   require_cross_replica_context
     (push_per_thread_mode
        (InReplicaThreadMode
           \<lparr>rc_object = 0, rc_distribution_strategy = 1, rc_replica_id_in_sync_group = 0\<rparr>)
        (push_per_thread_mode (CrossReplicaThreadMode 1) fresh_thread)) 1
     = Inl RequiresCrossReplica \<and>
   reduce default_reduce_hook
     (push_per_thread_mode
        (InReplicaThreadMode
           \<lparr>rc_object = 0, rc_distribution_strategy = 1, rc_replica_id_in_sync_group = 0\<rparr>)
        (push_per_thread_mode (CrossReplicaThreadMode 1) fresh_thread)) 1
     (ReduceOp ReduceOp_SUM) (PyInt 5) PyNone
     = Inl RequiresCrossReplica"
proof -
  let ?r = "\<lparr>rc_object = 0, rc_distribution_strategy = 1, rc_replica_id_in_sync_group = 0\<rparr>"
  let ?cross1 = "push_per_thread_mode (CrossReplicaThreadMode 1) fresh_thread"
  let ?cross2 = "push_per_thread_mode (CrossReplicaThreadMode 2) fresh_thread"
  let ?rep = "push_per_thread_mode (InReplicaThreadMode ?r) ?cross1"
  have m0: "get_per_thread_mode fresh_thread = DefaultReplicaThreadMode"
    by (simp add: get_per_thread_mode_def fresh_thread_def)
  have a: "require_cross_replica_context fresh_thread 1 = Inl (NeedScope 1)"
    using require_cross_replica_context_guard[of fresh_thread 1] m0 by blast
  have b: "require_cross_replica_context ?cross1 1 = Inr ()"
    using require_cross_replica_context_guard[of ?cross1 1] by simp
  have c: "require_cross_replica_context ?cross2 1 = Inl (MixingStrategies (Some 2) 1)"
    using require_cross_replica_context_guard[of ?cross2 1] by simp
  have d: "require_cross_replica_context ?rep 1 = Inl RequiresCrossReplica"
    using require_cross_replica_context_guard[of ?rep 1] by simp
  have e: "reduce default_reduce_hook ?rep 1 (ReduceOp ReduceOp_SUM) (PyInt 5) PyNone
             = Inl RequiresCrossReplica"
    using require_cross_replica_context_guard[of ?rep 1] d by simp
  from a b c d e show ?thesis by blast
qed

text \<open>
  Claim C4, as the code has it. Entering \<open>s.scope()\<close> while the scope of another
  strategy \<open>t\<close> is active (the current mode is cross-replica context of \<open>t\<close> or a
  replica context of \<open>t\<close>) raises the error that names \<open>t\<close> and \<open>s\<close>. Entering it
  while the current mode is cross-replica context of \<open>s\<close> itself returns the
  pass-through context manager, whose \<open>__enter__\<close> returns \<open>s\<close> and whose
  \<open>__enter__\<close> and \<open>__exit__\<close> leave the thread state, and so the variable-creator
  scopes, the device scopes and the mode stack, as they are. Entering it inside a
  replica context of \<open>s\<close> raises the error that points to \<open>merge_call\<close>.
\<close>

theorem scope_nested:
  "(\<forall>t. distribution_strategy (get_per_thread_mode st) = Some t \<and> t \<noteq> s \<longrightarrow>
      scope default_device s st = Inl (MixingStrategies (Some t) s)) \<and>
   (get_per_thread_mode st = CrossReplicaThreadMode s \<longrightarrow>
      scope default_device s st = Inr (SameScopeAgainContext s) \<and>
      (\<forall>st'. scope_enter (SameScopeAgainContext s) st' = (s, st') \<and>
             scope_exit (SameScopeAgainContext s) st' = st')) \<and>
   (\<forall>r. get_per_thread_mode st = InReplicaThreadMode r \<and> rc_distribution_strategy r = s \<longrightarrow>
      scope default_device s st = Inl RequiresCrossReplica)"
proof (intro conjI allI impI)
  fix t
  assume other: "distribution_strategy (get_per_thread_mode st) = Some t \<and> t \<noteq> s"
  then show "scope default_device s st = Inl (MixingStrategies (Some t) s)"
    by (cases "get_per_thread_mode st")
       (auto simp: scope_def has_distribution_strategy_def guard_other_cross
          guard_other_replica)
next
  assume "get_per_thread_mode st = CrossReplicaThreadMode s"
  then show "scope default_device s st = Inr (SameScopeAgainContext s)"
    by (simp add: scope_def has_distribution_strategy_def guard_ok_iff[THEN iffD2])
next
  fix r
  assume "get_per_thread_mode st = InReplicaThreadMode r \<and> rc_distribution_strategy r = s"
  then show "scope default_device s st = Inl RequiresCrossReplica"
    by (simp add: scope_def has_distribution_strategy_def guard_same_replica)
qed simp_all

theorem scope_nested_witness:
  "scope PyNone 1 (snd (scope_enter (CurrentDistributionContext 2 2 (Some 2) None) fresh_thread))
     = Inl (MixingStrategies (Some 2) 1) \<and>
   scope PyNone 1 (snd (scope_enter (CurrentDistributionContext 1 1 (Some 1) None) fresh_thread))
     = Inr (SameScopeAgainContext 1)"
proof -
  let ?in2 = "snd (scope_enter (CurrentDistributionContext 2 2 (Some 2) None) fresh_thread)"
  let ?in1 = "snd (scope_enter (CurrentDistributionContext 1 1 (Some 1) None) fresh_thread)"
  have m2: "get_per_thread_mode ?in2 = CrossReplicaThreadMode 2"
    by (simp add: get_per_thread_mode_def push_per_thread_mode_def var_scope_enter_def
          var_creator_scope_enter_def Let_def)
  have m1: "get_per_thread_mode ?in1 = CrossReplicaThreadMode 1"
    by (simp add: get_per_thread_mode_def push_per_thread_mode_def var_scope_enter_def
          var_creator_scope_enter_def Let_def)
  from scope_nested[of ?in2 1 PyNone] m2
  have a: "scope PyNone 1 ?in2 = Inl (MixingStrategies (Some 2) 1)"
    by simp
  from scope_nested[of ?in1 1 PyNone] m1
  have b: "scope PyNone 1 ?in1 = Inr (SameScopeAgainContext 1)"
    by simp
  from a b show ?thesis by blast
qed

text \<open>
  Strategy 1 enters its scope on a fresh thread; inside a replica context of strategy 1
  the scope is still active, and entering \<open>scope()\<close> of strategy 1 again raises.
\<close>

theorem scope_reentry_in_replica_counterexample:
  "scope PyNone 1 fresh_thread = Inr (CurrentDistributionContext 1 1 (Some 1) None) \<and>
   require_distribution_strategy_scope
     (replica_context_enter
        \<lparr>rc_object = 0, rc_distribution_strategy = 1, rc_replica_id_in_sync_group = 0\<rparr>
        (snd (scope_enter (CurrentDistributionContext 1 1 (Some 1) None) fresh_thread))) 1
     = Inr () \<and>
   scope PyNone 1
     (replica_context_enter
        \<lparr>rc_object = 0, rc_distribution_strategy = 1, rc_replica_id_in_sync_group = 0\<rparr>
        (snd (scope_enter (CurrentDistributionContext 1 1 (Some 1) None) fresh_thread)))
     = Inl RequiresCrossReplica"
  by (simp add: scope_def has_distribution_strategy_def get_per_thread_mode_def
        fresh_thread_def new_current_distribution_context_def
        require_distribution_strategy_scope_def require_cross_replica_context_def
        replica_context_enter_def push_per_thread_mode_def var_scope_enter_def
        var_creator_scope_enter_def Let_def)

text \<open>
  Claim C5. For every input context whose replica count is not zero and every integer
  global batch size, \<open>get_per_replica_batch_size\<close> raises exactly when the replica count
  does not divide the batch size, and otherwise returns the quotient, which multiplied
  by the replica count gives the batch size back (nothing is rounded away). A replica
  count of zero always raises.
\<close>

theorem get_per_replica_batch_size_exact:
  "(num_replicas_in_sync c \<noteq> 0 \<longrightarrow>
      (is_error (get_per_replica_batch_size c g) \<longleftrightarrow> \<not> num_replicas_in_sync c dvd g) \<and>
      (num_replicas_in_sync c dvd g \<longrightarrow>
         get_per_replica_batch_size c g = Inr (g div num_replicas_in_sync c) \<and>
         (g div num_replicas_in_sync c) * num_replicas_in_sync c = g)) \<and>
   (num_replicas_in_sync c = 0 \<longrightarrow> is_error (get_per_replica_batch_size c g))"
  by (auto simp: get_per_replica_batch_size_def mod_eq_0_iff_dvd)

theorem get_per_replica_batch_size_exact_witness:
  "get_per_replica_batch_size
     \<lparr>num_input_pipelines = 1, input_pipeline_id = 0, num_replicas_in_sync = 8\<rparr> 64 = Inr 8 \<and>
   is_error (get_per_replica_batch_size
     \<lparr>num_input_pipelines = 1, input_pipeline_id = 0, num_replicas_in_sync = 7\<rparr> 64)"
  using get_per_replica_batch_size_exact
    [of "\<lparr>num_input_pipelines = 1, input_pipeline_id = 0, num_replicas_in_sync = 8\<rparr>" 64]
    get_per_replica_batch_size_exact
    [of "\<lparr>num_input_pipelines = 1, input_pipeline_id = 0, num_replicas_in_sync = 7\<rparr>" 64]
  by simp




text \<open>
  Claim C7, as the code has it. For the default strategy in its own cross-replica
  context, \<open>reduce\<close> returns the value unchanged for every reduce operation (and every
  accepted value of the old enum) and every destination, as its hook \<open>_reduce\<close> does in
  any mode; \<open>broadcast\<close> returns the tensor unchanged when \<open>destinations\<close> is \<open>None\<close>,
  and raises NotImplementedError for every other destination.
\<close>

theorem default_reduce_broadcast:
  assumes "get_per_thread_mode st = CrossReplicaThreadMode s"
  shows "(agg \<noteq> VariableAggregation VariableAggregation_NONE \<longrightarrow>
            reduce default_reduce_hook st s agg v d = Inr v) \<and>
         default_reduce_hook s agg v d = Inr v \<and>
         broadcast default_broadcast_hook st s v PyNone = Inr v \<and>
         (d \<noteq> PyNone \<longrightarrow> broadcast default_broadcast_hook st s v d = Inl NotImplementedError)"
proof (intro conjI impI)
  assume "agg \<noteq> VariableAggregation VariableAggregation_NONE"
  then obtain op' where "to_reduce_op agg = Inr op'"
    using to_reduce_op_error[of agg] by (cases "to_reduce_op agg") auto
  with assms show "reduce default_reduce_hook st s agg v d = Inr v"
    by (simp add: reduce_def guard_ok_iff[THEN iffD2] default_reduce_hook_def)
next
  show "default_reduce_hook s agg v d = Inr v"
    by (simp add: default_reduce_hook_def)
next
  from assms show "broadcast default_broadcast_hook st s v PyNone = Inr v"
    by (simp add: broadcast_def guard_ok_iff[THEN iffD2] default_broadcast_hook_def)
next
  assume "d \<noteq> PyNone"
  with assms show "broadcast default_broadcast_hook st s v d = Inl NotImplementedError"
    by (simp add: broadcast_def guard_ok_iff[THEN iffD2] default_broadcast_hook_def)
qed

theorem default_reduce_broadcast_witness:
  "reduce default_reduce_hook (push_per_thread_mode (CrossReplicaThreadMode 1) fresh_thread) 1
     (ReduceOp ReduceOp_MEAN) (PyInt 5) (PyStr ''/cpu:0'') = Inr (PyInt 5) \<and>
   broadcast default_broadcast_hook (push_per_thread_mode (CrossReplicaThreadMode 1) fresh_thread)
     1 (PyInt 5) PyNone = Inr (PyInt 5)"
proof -
  have m: "get_per_thread_mode (push_per_thread_mode (CrossReplicaThreadMode 1) fresh_thread) =
           CrossReplicaThreadMode 1"
    by simp
  from default_reduce_broadcast[OF m, of "ReduceOp ReduceOp_MEAN" "PyInt 5" "PyStr ''/cpu:0''"]
  show ?thesis by simp
qed

theorem default_broadcast_destinations_counterexample:
  "broadcast default_broadcast_hook (push_per_thread_mode (CrossReplicaThreadMode 1) fresh_thread)
     1 (PyInt 5) (PyStr ''/cpu:0'') = Inl NotImplementedError \<and>
   default_broadcast_hook 1 (PyInt 5) (PyStr ''/cpu:0'') = Inl NotImplementedError"
  by (simp add: broadcast_def guard_ok_iff[THEN iffD2] default_broadcast_hook_def)

text \<open>
  Claim C8. With the base \<open>_batch_reduce\<close>, whatever \<open>_reduce\<close> the strategy has:
  \<open>batch_reduce\<close> gives what the calls \<open>reduce(op, t, destinations=v)\<close> give, pair by
  pair and in order, the first error being the error of the whole. This needs that
  there is a pair, or that \<open>batch_reduce\<close>'s own guard and its check of the operation
  pass. When \<open>batch_reduce\<close> returns a list, the list is as long as the list of pairs
  and its i-th element is the result of \<open>reduce\<close> on the i-th pair alone.
\<close>

theorem batch_reduce_is_map_reduce:
  assumes "ps \<noteq> [] \<or> (require_cross_replica_context st s = Inr () \<and>
             agg \<noteq> VariableAggregation VariableAggregation_NONE)"
  shows "batch_reduce rh st s agg ps =
           sequence_results (map (\<lambda>(t, v). reduce rh st s agg t v) ps) \<and>
         (\<forall>ys. batch_reduce rh st s agg ps = Inr ys \<longrightarrow>
            length ys = length ps \<and>
            (\<forall>i < length ps. reduce rh st s agg (fst (ps ! i)) (snd (ps ! i)) = Inr (ys ! i)))"
proof -
  have eq: "batch_reduce rh st s agg ps =
           sequence_results (map (\<lambda>(t, v). reduce rh st s agg t v) ps)"
    by (rule batch_reduce_map[OF assms])
  have nth: "\<forall>ys. batch_reduce rh st s agg ps = Inr ys \<longrightarrow>
            length ys = length ps \<and>
            (\<forall>i < length ps. reduce rh st s agg (fst (ps ! i)) (snd (ps ! i)) = Inr (ys ! i))"
  proof (intro allI impI)
    fix ys
    assume "batch_reduce rh st s agg ps = Inr ys"
    with eq have "sequence_results (map (\<lambda>(t, v). reduce rh st s agg t v) ps) = Inr ys"
      by simp
    from sequence_results_nth[OF this]
    show "length ys = length ps \<and>
          (\<forall>i < length ps. reduce rh st s agg (fst (ps ! i)) (snd (ps ! i)) = Inr (ys ! i))"
      by (simp add: case_prod_unfold)
  qed
  from eq nth show ?thesis by (rule conjI)
qed

theorem batch_reduce_is_map_reduce_witness:
  "batch_reduce default_reduce_hook (push_per_thread_mode (CrossReplicaThreadMode 1) fresh_thread)
     1 (ReduceOp ReduceOp_MEAN) [(PyInt 1, PyNone), (PyInt 2, PyStr ''/cpu:0'')]
     = Inr [PyInt 1, PyInt 2]"
proof -
  have ne: "[(PyInt 1, PyNone), (PyInt 2, PyStr ''/cpu:0'')] \<noteq> [] \<or>
        (require_cross_replica_context
           (push_per_thread_mode (CrossReplicaThreadMode 1) fresh_thread) 1 = Inr () \<and>
         ReduceOp ReduceOp_MEAN \<noteq> VariableAggregation VariableAggregation_NONE)"
    by simp
  from batch_reduce_is_map_reduce[OF ne, of default_reduce_hook, THEN conjunct1]
  show ?thesis
    by (simp add: reduce_def guard_ok_iff[THEN iffD2] default_reduce_hook_def)
qed

text \<open>
  Claim C9. In the default strategy \<open>unwrap\<close> returns the one-element list of its
  argument, for every argument, a plain value in particular.
\<close>

theorem default_unwrap_singleton:
  "unwrap default_unwrap_hook s v = Inr (PyList [v])"
  by (simp add: unwrap_def default_unwrap_hook_def)

text \<open>
  Claim C10. In the cross-replica context, \<open>update\<close> and \<open>update_non_slot\<close> hand to
  their hook, besides the arguments the convention gives, the flag \<open>grouped and group\<close>,
  each of the two being \<open>True\<close> when the call does not give it; the flag is true iff
  both are. In the default strategy both methods call the function inside the update
  context (\<open>update\<close> with the variable in front of the positional arguments), and what
  they return is, when \<open>group\<close> and \<open>grouped\<close> are both true, the result of the
  function itself, and when either is false, \<open>nest.map_structure(_unwrap, result)\<close> of
  that result; an exception of the function is passed on under either flag.
  \<open>nest.map_structure(_unwrap, result)\<close> never fails and turns a leaf into the
  one-element list of it.
\<close>

theorem grouping_flag_conjunction:
  assumes "''args'' \<notin> fst ` set direct" and "''kwargs'' \<notin> fst ` set direct"
    and "''group'' \<notin> fst ` set direct" and "''grouped'' \<notin> fst ` set direct"
    and "a \<noteq> Some PyNone" and "k \<noteq> Some PyNone"
    and "require_cross_replica_context st s = Inr ()"
  shows
    "update uh s var fn pos (group_arguments g gd @ keyword_arguments direct a k) st =
       (case argument_convention ''update'' pos direct a k of
          Inl e \<Rightarrow> (Inl e, st)
        | Inr (args', kwargs') \<Rightarrow>
            uh s var fn args' kwargs' (py_and (or_true gd) (or_true g)) st) \<and>
     update_non_slot nh s var fn pos (group_arguments g gd @ keyword_arguments direct a k) st =
       (case argument_convention ''update_non_slot'' pos direct a k of
          Inl e \<Rightarrow> (Inl e, st)
        | Inr (args', kwargs') \<Rightarrow>
            nh s var fn args' kwargs' (py_and (or_true gd) (or_true g)) st) \<and>
     (truthy (py_and (or_true gd) (or_true g)) \<longleftrightarrow> truthy (or_true g) \<and> truthy (or_true gd)) \<and>
     (mk = PyTuple \<or> mk = PyList \<longrightarrow>
        update_non_slot default_update_non_slot_hook s var fn pos
            (group_arguments g gd @
             keyword_arguments direct (map_option mk ae) (map_option PyDict ki)) st =
          (case supplied_arguments ''update_non_slot'' pos direct ae ki of
             Inl e \<Rightarrow> (Inl e, st)
           | Inr (args', kwargs') \<Rightarrow>
               (let st1 = colocate_with_enter var st;
                    (old_device, st2) = update_context_enter var st1;
                    (r, st3) = fn args' kwargs' st2
                in ((case r of
                       Inl e \<Rightarrow> Inl e
                     | Inr result \<Rightarrow>
                         if truthy (or_true g) \<and> truthy (or_true gd) then Inr result
                         else map_structure (default_unwrap_hook s) result),
                    colocate_with_exit (update_context_exit old_device st3))))) \<and>
     (mk = PyTuple \<or> mk = PyList \<longrightarrow>
        update default_update_hook s var fn pos
            (group_arguments g gd @
             keyword_arguments direct (map_option mk ae) (map_option PyDict ki)) st =
          (case supplied_arguments ''update'' pos direct ae ki of
             Inl e \<Rightarrow> (Inl e, st)
           | Inr (args', kwargs') \<Rightarrow>
               (let st1 = colocate_with_enter var st;
                    (old_device, st2) = update_context_enter var st1;
                    (r, st3) = fn (var # args') kwargs' st2
                in ((case r of
                       Inl e \<Rightarrow> Inl e
                     | Inr result \<Rightarrow>
                         if truthy (or_true g) \<and> truthy (or_true gd) then Inr result
                         else map_structure (default_unwrap_hook s) result),
                    colocate_with_exit (update_context_exit old_device st3))))) \<and>
     (\<forall>result. \<exists>w. map_structure (default_unwrap_hook s) result = Inr w) \<and>
     (\<forall>leaf. (\<forall>xs. leaf \<noteq> PyTuple xs) \<and> (\<forall>xs. leaf \<noteq> PyList xs) \<and>
             (\<forall>kvs. leaf \<noteq> PyDict kvs) \<longrightarrow>
        map_structure (default_unwrap_hook s) leaf = Inr (PyList [leaf]))"
proof (intro conjI allI impI)
  show "update uh s var fn pos (group_arguments g gd @ keyword_arguments direct a k) st =
       (case argument_convention ''update'' pos direct a k of
          Inl e \<Rightarrow> (Inl e, st)
        | Inr (args', kwargs') \<Rightarrow>
            uh s var fn args' kwargs' (py_and (or_true gd) (or_true g)) st)"
    by (rule group_flag_update[OF assms])
  show "update_non_slot nh s var fn pos (group_arguments g gd @ keyword_arguments direct a k) st =
       (case argument_convention ''update_non_slot'' pos direct a k of
          Inl e \<Rightarrow> (Inl e, st)
        | Inr (args', kwargs') \<Rightarrow>
            nh s var fn args' kwargs' (py_and (or_true gd) (or_true g)) st)"
    by (rule group_flag_update_non_slot[OF assms])
  show "truthy (py_and (or_true gd) (or_true g)) \<longleftrightarrow> truthy (or_true g) \<and> truthy (or_true gd)"
    by (auto simp: truthy_py_and)
next
  assume mk: "mk = PyTuple \<or> mk = PyList"
  show "update_non_slot default_update_non_slot_hook s var fn pos
            (group_arguments g gd @
             keyword_arguments direct (map_option mk ae) (map_option PyDict ki)) st =
          (case supplied_arguments ''update_non_slot'' pos direct ae ki of
             Inl e \<Rightarrow> (Inl e, st)
           | Inr (args', kwargs') \<Rightarrow>
               (let st1 = colocate_with_enter var st;
                    (old_device, st2) = update_context_enter var st1;
                    (r, st3) = fn args' kwargs' st2
                in ((case r of
                       Inl e \<Rightarrow> Inl e
                     | Inr result \<Rightarrow>
                         if truthy (or_true g) \<and> truthy (or_true gd) then Inr result
                         else map_structure (default_unwrap_hook s) result),
                    colocate_with_exit (update_context_exit old_device st3))))"
    by (rule update_non_slot_reaches_fn[OF assms(1-4) mk assms(7)])
next
  assume mk: "mk = PyTuple \<or> mk = PyList"
  show "update default_update_hook s var fn pos
            (group_arguments g gd @
             keyword_arguments direct (map_option mk ae) (map_option PyDict ki)) st =
          (case supplied_arguments ''update'' pos direct ae ki of
             Inl e \<Rightarrow> (Inl e, st)
           | Inr (args', kwargs') \<Rightarrow>
               (let st1 = colocate_with_enter var st;
                    (old_device, st2) = update_context_enter var st1;
                    (r, st3) = fn (var # args') kwargs' st2
                in ((case r of
                       Inl e \<Rightarrow> Inl e
                     | Inr result \<Rightarrow>
                         if truthy (or_true g) \<and> truthy (or_true gd) then Inr result
                         else map_structure (default_unwrap_hook s) result),
                    colocate_with_exit (update_context_exit old_device st3))))"
    by (rule update_reaches_fn[OF assms(1-4) mk assms(7)])
next
  fix result
  show "\<exists>w. map_structure (default_unwrap_hook s) result = Inr w"
    by (rule map_structure_unwrap_total)
next
  fix leaf
  assume "(\<forall>xs. leaf \<noteq> PyTuple xs) \<and> (\<forall>xs. leaf \<noteq> PyList xs) \<and> (\<forall>kvs. leaf \<noteq> PyDict kvs)"
  then show "map_structure (default_unwrap_hook s) leaf = Inr (PyList [leaf])"
    by (simp add: map_structure_unwrap_leaf)
qed

theorem grouping_flag_conjunction_witness:
  "fst (update_non_slot default_update_non_slot_hook 1 (PyStr ''/cpu:0'') echo_arguments
          [PyInt 2] [(''grouped'', PyBool False)]
          (push_per_thread_mode (CrossReplicaThreadMode 1) fresh_thread))
     = Inr (PyTuple [PyTuple [PyList [PyInt 2]], PyDict []]) \<and>
   fst (update default_update_hook 1 (PyObject 0) echo_arguments
          [PyInt 2] [(''group'', PyBool False)]
          (push_per_thread_mode (CrossReplicaThreadMode 1) fresh_thread))
     = Inr (PyTuple [PyTuple [PyList [PyObject 0], PyList [PyInt 2]], PyDict []]) \<and>
   fst (update default_update_hook 1 (PyObject 0) echo_arguments
          [PyInt 2] [(''group'', PyBool True)]
          (push_per_thread_mode (CrossReplicaThreadMode 1) fresh_thread))
     = Inr (PyTuple [PyTuple [PyObject 0, PyInt 2], PyDict []])"
proof -
  let ?st = "push_per_thread_mode (CrossReplicaThreadMode 1) fresh_thread"
  have keys: "''args'' \<notin> fst ` set ([] :: kwargs)" "''kwargs'' \<notin> fst ` set ([] :: kwargs)"
    "''group'' \<notin> fst ` set ([] :: kwargs)" "''grouped'' \<notin> fst ` set ([] :: kwargs)"
    by simp_all
  have none: "(None :: pyval option) \<noteq> Some PyNone"
    by simp
  have ok: "require_cross_replica_context ?st 1 = Inr ()"
    by (simp add: guard_ok_iff)
  have mk: "PyTuple = PyTuple \<or> PyTuple = PyList"
    by simp
  have a: "fst (update_non_slot default_update_non_slot_hook 1 (PyStr ''/cpu:0'')
                  echo_arguments [PyInt 2] [(''grouped'', PyBool False)] ?st)
             = Inr (PyTuple [PyTuple [PyList [PyInt 2]], PyDict []])"
    using grouping_flag_conjunction
            [OF keys none none ok, where mk = PyTuple and var = "PyStr ''/cpu:0''"
               and fn = echo_arguments and pos = "[PyInt 2]" and g = None
               and gd = "Some (PyBool False)" and ae = None and ki = None,
             THEN conjunct2, THEN conjunct2, THEN conjunct2, THEN conjunct1, THEN mp, OF mk]
    by (simp add: group_arguments_def keyword_arguments_def supplied_arguments_def
          or_true_def echo_arguments_def default_unwrap_hook_def
          update_context_enter_def Let_def)
  have b: "fst (update default_update_hook 1 (PyObject 0) echo_arguments
                  [PyInt 2] [(''group'', PyBool False)] ?st)
             = Inr (PyTuple [PyTuple [PyList [PyObject 0], PyList [PyInt 2]], PyDict []])"
    using grouping_flag_conjunction
            [OF keys none none ok, where mk = PyTuple and var = "PyObject 0"
               and fn = echo_arguments and pos = "[PyInt 2]" and g = "Some (PyBool False)"
               and gd = None and ae = None and ki = None,
             THEN conjunct2, THEN conjunct2, THEN conjunct2, THEN conjunct2, THEN conjunct1,
             THEN mp, OF mk]
    by (simp add: group_arguments_def keyword_arguments_def supplied_arguments_def
          or_true_def echo_arguments_def default_unwrap_hook_def
          update_context_enter_def Let_def)
  have c: "fst (update default_update_hook 1 (PyObject 0) echo_arguments
                  [PyInt 2] [(''group'', PyBool True)] ?st)
             = Inr (PyTuple [PyTuple [PyObject 0, PyInt 2], PyDict []])"
    using grouping_flag_conjunction
            [OF keys none none ok, where mk = PyTuple and var = "PyObject 0"
               and fn = echo_arguments and pos = "[PyInt 2]" and g = "Some (PyBool True)"
               and gd = None and ae = None and ki = None,
             THEN conjunct2, THEN conjunct2, THEN conjunct2, THEN conjunct2, THEN conjunct1,
             THEN mp, OF mk]
    by (simp add: group_arguments_def keyword_arguments_def supplied_arguments_def
          or_true_def echo_arguments_def default_unwrap_hook_def
          update_context_enter_def Let_def)
  from a b c show ?thesis by blast
qed

end
